theory Spec2Isabelle
  imports Complex_Main
begin

section \<open>Double-precision values\<close>

text \<open>
  The adaptive-moments code of \<^verbatim>\<open>SdssShape.cc\<close> computes with C++ \<^verbatim>\<open>double\<close> and
  \<^verbatim>\<open>float\<close> values and tests them with \<^verbatim>\<open>std::isnan\<close>.  A value is modelled as
  a not-a-number, one of the two infinities, or a finite real.  Arithmetic in double
  precision is idealised: on finite values it is exact (no rounding and no overflow, one
  zero).  The special values follow IEEE 754: a not-a-number absorbs every operation and
  fails every ordered comparison, \<open>\<infinity> - \<infinity>\<close>, \<open>0 \<sdot> \<infinity>\<close>, \<open>\<infinity> / \<infinity>\<close> and \<open>0 / 0\<close> are
  not-a-number.
\<close>

datatype dbl = NaN | NInf | Fin real | PInf

definition isnan :: "dbl \<Rightarrow> bool" where
  "isnan v = (v = NaN)"

instantiation dbl :: "{zero, one, plus, uminus, minus, times, inverse, ord}"
begin

definition zero_dbl :: dbl where
  "zero_dbl = Fin 0"

definition one_dbl :: dbl where
  "one_dbl = Fin 1"

fun plus_dbl :: "dbl \<Rightarrow> dbl \<Rightarrow> dbl" where
  "plus_dbl NaN _ = NaN"
| "plus_dbl _ NaN = NaN"
| "plus_dbl PInf NInf = NaN"
| "plus_dbl NInf PInf = NaN"
| "plus_dbl PInf _ = PInf"
| "plus_dbl _ PInf = PInf"
| "plus_dbl NInf _ = NInf"
| "plus_dbl _ NInf = NInf"
| "plus_dbl (Fin a) (Fin b) = Fin (a + b)"

fun uminus_dbl :: "dbl \<Rightarrow> dbl" where
  "uminus_dbl NaN = NaN"
| "uminus_dbl NInf = PInf"
| "uminus_dbl PInf = NInf"
| "uminus_dbl (Fin a) = Fin (- a)"

definition minus_dbl :: "dbl \<Rightarrow> dbl \<Rightarrow> dbl" where
  "minus_dbl a b = a + (- b)"

fun times_dbl :: "dbl \<Rightarrow> dbl \<Rightarrow> dbl" where
  "times_dbl NaN _ = NaN"
| "times_dbl _ NaN = NaN"
| "times_dbl (Fin a) (Fin b) = Fin (a * b)"
| "times_dbl (Fin a) PInf = (if a = 0 then NaN else if 0 < a then PInf else NInf)"
| "times_dbl (Fin a) NInf = (if a = 0 then NaN else if 0 < a then NInf else PInf)"
| "times_dbl PInf (Fin b) = (if b = 0 then NaN else if 0 < b then PInf else NInf)"
| "times_dbl NInf (Fin b) = (if b = 0 then NaN else if 0 < b then NInf else PInf)"
| "times_dbl PInf PInf = PInf"
| "times_dbl NInf NInf = PInf"
| "times_dbl PInf NInf = NInf"
| "times_dbl NInf PInf = NInf"

text \<open>Division: a finite zero divisor counts as \<open>+0\<close>.\<close>

fun divide_dbl :: "dbl \<Rightarrow> dbl \<Rightarrow> dbl" where
  "divide_dbl NaN _ = NaN"
| "divide_dbl _ NaN = NaN"
| "divide_dbl (Fin a) (Fin b) =
     (if b = 0 then (if a = 0 then NaN else if 0 < a then PInf else NInf) else Fin (a / b))"
| "divide_dbl (Fin a) _ = Fin 0"
| "divide_dbl PInf (Fin b) = (if 0 \<le> b then PInf else NInf)"
| "divide_dbl NInf (Fin b) = (if 0 \<le> b then NInf else PInf)"
| "divide_dbl _ _ = NaN"

definition inverse_dbl :: "dbl \<Rightarrow> dbl" where
  "inverse_dbl a = divide (Fin 1) a"

fun less_dbl :: "dbl \<Rightarrow> dbl \<Rightarrow> bool" where
  "less_dbl NaN _ = False"
| "less_dbl _ NaN = False"
| "less_dbl (Fin a) (Fin b) = (a < b)"
| "less_dbl _ NInf = False"
| "less_dbl PInf _ = False"
| "less_dbl _ _ = True"

definition less_eq_dbl :: "dbl \<Rightarrow> dbl \<Rightarrow> bool" where
  "less_eq_dbl a b = (a < b \<or> (a = b \<and> a \<noteq> NaN))"

instance ..

end

text \<open>The comparison \<^verbatim>\<open>==\<close> of two doubles: false as soon as one side is not-a-number.\<close>

definition deq :: "dbl \<Rightarrow> dbl \<Rightarrow> bool" where
  "deq a b = (a = b \<and> a \<noteq> NaN)"

fun dsqrt :: "dbl \<Rightarrow> dbl" where
  "dsqrt NaN = NaN"
| "dsqrt NInf = NaN"
| "dsqrt PInf = PInf"
| "dsqrt (Fin a) = (if a < 0 then NaN else Fin (sqrt a))"

fun dexp :: "dbl \<Rightarrow> dbl" where
  "dexp NaN = NaN"
| "dexp NInf = Fin 0"
| "dexp PInf = PInf"
| "dexp (Fin a) = Fin (exp a)"

fun fabs :: "dbl \<Rightarrow> dbl" where
  "fabs NaN = NaN"
| "fabs NInf = PInf"
| "fabs PInf = PInf"
| "fabs (Fin a) = Fin \<bar>a\<bar>"

text \<open>\<^verbatim>\<open>std::max(a, b)\<close> is \<^verbatim>\<open>(a < b) ? b : a\<close> and \<^verbatim>\<open>std::min(a, b)\<close> is
  \<^verbatim>\<open>(b < a) ? b : a\<close>.\<close>

definition std_max :: "dbl \<Rightarrow> dbl \<Rightarrow> dbl" where
  "std_max a b = (if a < b then b else a)"

definition std_min :: "dbl \<Rightarrow> dbl \<Rightarrow> dbl" where
  "std_min a b = (if b < a then b else a)"

text \<open>\<^verbatim>\<open>std::numeric_limits<float>::epsilon()\<close> and \<^verbatim>\<open>std::numeric_limits<double>::epsilon()\<close>.\<close>

definition epsilon_float :: real where
  "epsilon_float = 1 / 2 ^ 23"

definition epsilon_double :: real where
  "epsilon_double = 1 / 2 ^ 52"

text \<open>With exact sums, the order in which values are accumulated does not matter.\<close>

instantiation dbl :: comm_monoid_add
begin

instance
proof
  fix u v w :: dbl
  show "0 + u = u"
    unfolding zero_dbl_def by (cases u) simp_all
  show "u + v = v + u"
    by (cases u; cases v) simp_all
  show "u + v + w = u + (v + w)"
    by (cases u; cases v; cases w) simp_all
qed

end

section \<open>Single-precision values\<close>

text \<open>
  A value stored in a \<^verbatim>\<open>float\<close> variable, or the result of an operation on two
  \<^verbatim>\<open>float\<close> operands, is the nearest single-precision number, the one with the even
  last digit in a tie: 24 significant binary digits, the exponent of the last digit
  between \<open>-149\<close> (gradual underflow) and \<open>104\<close>, and an infinity where the rounded
  magnitude reaches \<open>2\<^sup>1\<^sup>2\<^sup>8\<close>.  The accumulators without interpolation and the
  error analysis are modelled with it, variable by variable; the other \<^verbatim>\<open>float\<close>
  variables of the source (in the interpolated path, in the iteration of
  \<^verbatim>\<open>getAdaptiveMoments\<close> and in its caller) are computed like doubles.
\<close>

definition round_even :: "real \<Rightarrow> int" where
  "round_even r =
     (let n = \<lfloor>r\<rfloor>; d = r - of_int n
      in if d < 1 / 2 then n else if 1 / 2 < d then n + 1 else if even n then n else n + 1)"

definition ulp_exponent :: "real \<Rightarrow> int" where
  "ulp_exponent r = max \<lfloor>log 2 \<bar>r\<bar>\<rfloor> (- 126) - 23"

definition float_round :: "real \<Rightarrow> real" where
  "float_round r =
     (if r = 0 then 0
      else of_int (round_even (r / 2 powr of_int (ulp_exponent r))) * 2 powr of_int (ulp_exponent r))"

fun to_float :: "dbl \<Rightarrow> dbl" where
  "to_float (Fin r) =
     (let q = float_round r
      in if 2 ^ 128 \<le> \<bar>q\<bar> then (if 0 < r then PInf else NInf) else Fin q)"
| "to_float NaN = NaN"
| "to_float PInf = PInf"
| "to_float NInf = NInf"

section \<open>Weights from moments\<close>

text \<open>
  \<^verbatim>\<open>getWeights(sigma11, sigma12, sigma22)\<close> returns the tuple
  \<^verbatim>\<open>((ok, det), w11, w12, w22)\<close>.
\<close>

definition getWeights :: "dbl \<Rightarrow> dbl \<Rightarrow> dbl \<Rightarrow> (bool \<times> dbl) \<times> dbl \<times> dbl \<times> dbl" where
  "getWeights sigma11 sigma12 sigma22 =
     (if isnan sigma11 \<or> isnan sigma12 \<or> isnan sigma22 then ((False, NaN), NaN, NaN, NaN)
      else
        let det = sigma11 * sigma22 - sigma12 * sigma12 in
        if isnan det \<or> det < Fin epsilon_float then ((False, det), NaN, NaN, NaN)
        else ((True, det), sigma22 / det, - sigma12 / det, sigma11 / det))"

text \<open>\<^verbatim>\<open>shouldInterp\<close>: is the weighting function narrower than half a pixel?\<close>

definition shouldInterp :: "dbl \<Rightarrow> dbl \<Rightarrow> dbl \<Rightarrow> bool" where
  "shouldInterp sigma11 sigma22 det =
     (let xinterp = Fin (1 / 4) in
      sigma11 < xinterp \<or> sigma22 < xinterp \<or> det < xinterp * xinterp)"


section \<open>Boxes and images\<close>

text \<open>
  An integer box as \<^verbatim>\<open>geom::Box2I\<close> reports it through \<^verbatim>\<open>getMinX\<close>, \<^verbatim>\<open>getMaxX\<close>,
  \<^verbatim>\<open>getMinY\<close>, \<^verbatim>\<open>getMaxY\<close>: inclusive corners.  The geometry library is not part
  of these sources; its default-constructed (empty) box has minimum \<open>(0, 0)\<close> and no
  extent, so that its maximum is \<open>(-1, -1)\<close>.
\<close>

record Box2I =
  getMinX :: int
  getMinY :: int
  getMaxX :: int
  getMaxY :: int

definition emptyBox :: Box2I where
  "emptyBox = \<lparr>getMinX = 0, getMinY = 0, getMaxX = - 1, getMaxY = - 1\<rparr>"

definition isEmpty :: "Box2I \<Rightarrow> bool" where
  "isEmpty b = (getMaxX b < getMinX b \<or> getMaxY b < getMinY b)"

text \<open>\<^verbatim>\<open>Box2I::clip\<close>: shrink to the intersection with another box.\<close>

definition clip :: "Box2I \<Rightarrow> Box2I \<Rightarrow> Box2I" where
  "clip b other =
     (if isEmpty b then b
      else if isEmpty other then emptyBox
      else
        let x0 = max (getMinX b) (getMinX other); y0 = max (getMinY b) (getMinY other);
            x1 = min (getMaxX b) (getMaxX other); y1 = min (getMaxY b) (getMaxY other)
        in if x1 < x0 \<or> y1 < y0 then emptyBox
           else \<lparr>getMinX = x0, getMinY = y0, getMaxX = x1, getMaxY = y1\<rparr>)"

text \<open>\<^verbatim>\<open>Box2I::contains(Point2I)\<close>.\<close>

definition contains :: "Box2I \<Rightarrow> int \<Rightarrow> int \<Rightarrow> bool" where
  "contains b ix iy = (getMinX b \<le> ix \<and> ix \<le> getMaxX b \<and> getMinY b \<le> iy \<and> iy \<le> getMaxY b)"

text \<open>
  \<^verbatim>\<open>Box2I(Box2D(center - offset, center + offset))\<close> for the offset
  \<open>(radius, radius)\<close>: the smallest integer box whose pixels (pixel \<open>i\<close> covers
  \<open>[i - 1/2, i + 1/2]\<close>) cover the floating-point box.  A floating-point box with equal
  or not-a-number corners is empty.  The radius handed over by
  \<^verbatim>\<open>computeAdaptiveMomentsBBox\<close> is never infinite (it is capped).
\<close>

definition boxAround :: "real \<Rightarrow> real \<Rightarrow> dbl \<Rightarrow> Box2I" where
  "boxAround cx cy radius =
     (case radius of
        Fin r \<Rightarrow>
          if r = 0 then emptyBox
          else \<lparr>getMinX = \<lfloor>cx - \<bar>r\<bar> + 1 / 2\<rfloor>, getMinY = \<lfloor>cy - \<bar>r\<bar> + 1 / 2\<rfloor>,
                getMaxX = \<lceil>cx + \<bar>r\<bar> - 1 / 2\<rceil>, getMaxY = \<lceil>cy + \<bar>r\<bar> - 1 / 2\<rceil>\<rparr>
      | _ \<Rightarrow> emptyBox)"

text \<open>
  \<^verbatim>\<open>computeAdaptiveMomentsBBox\<close>: the region to examine, for the full image box, the
  centre of the object and the moments of the weighting function.
\<close>

definition computeAdaptiveMomentsBBox ::
    "Box2I \<Rightarrow> real \<Rightarrow> real \<Rightarrow> dbl \<Rightarrow> dbl \<Rightarrow> dbl \<Rightarrow> Box2I" where
  "computeAdaptiveMomentsBBox bbox cx cy sigma11_w sigma12_w sigma22_w =
     (let maxRadius = Fin 1000;
          radius = std_min (Fin 4 * dsqrt (std_max sigma11_w sigma22_w)) maxRadius
      in clip (boxAround cx cy radius) bbox)"

text \<open>
  An image: its dimensions, the origin of its parent coordinates, the type of its pixels
  (the code is instantiated for \<^verbatim>\<open>int\<close>, \<^verbatim>\<open>float\<close> and \<^verbatim>\<open>double\<close>), its pixels by
  column and row, and the variance plane when it is a \<^verbatim>\<open>MaskedImage\<close>
  (\<^verbatim>\<open>ImageAdaptor::hasVariance\<close>).  Pixel coordinates and the centre handed to the
  accumulators are finite.
\<close>

datatype pixelType = IntPixel | FloatPixel | DoublePixel

record Image =
  getWidth :: int
  getHeight :: int
  getX0 :: int
  getY0 :: int
  pixelT :: pixelType
  pixel :: "int \<Rightarrow> int \<Rightarrow> dbl"
  variancePlane :: "(int \<Rightarrow> int \<Rightarrow> dbl) option"

definition hasVariance :: "Image \<Rightarrow> bool" where
  "hasVariance img = (variancePlane img \<noteq> None)"

definition getVariance :: "Image \<Rightarrow> int \<Rightarrow> int \<Rightarrow> dbl" where
  "getVariance img ix iy = (case variancePlane img of None \<Rightarrow> NaN | Some v \<Rightarrow> v ix iy)"

text \<open>\<^verbatim>\<open>image.getBBox(afw::image::LOCAL)\<close>.\<close>

definition getBBoxLocal :: "Image \<Rightarrow> Box2I" where
  "getBBoxLocal img =
     (if getWidth img \<le> 0 \<or> getHeight img \<le> 0 then emptyBox
      else \<lparr>getMinX = 0, getMinY = 0, getMaxX = getWidth img - 1, getMaxY = getHeight img - 1\<rparr>)"

text \<open>\<^verbatim>\<open>afw::image::positionToIndex\<close>: the pixel that holds a position.\<close>

definition positionToIndex :: "real \<Rightarrow> int" where
  "positionToIndex pos = \<lfloor>pos + 1 / 2\<rfloor>"

text \<open>\<^verbatim>\<open>static_cast<int>\<close> of a finite value truncates towards zero.\<close>

definition static_cast_int :: "real \<Rightarrow> int" where
  "static_cast_int v = (if 0 \<le> v then \<lfloor>v\<rfloor> else \<lceil>v\<rceil>)"

section \<open>Weighted moments of an object\<close>

datatype error = InvalidParameterError | LengthError | DomainError | RuntimeError | LogicError

record moments =
  sum_m :: dbl
  sumx :: dbl
  sumy :: dbl
  sumxx :: dbl
  sumxy :: dbl
  sumyy :: dbl
  sums4 :: dbl

definition zeroMoments :: moments where
  "zeroMoments = \<lparr>sum_m = Fin 0, sumx = Fin 0, sumy = Fin 0, sumxx = Fin 0, sumxy = Fin 0,
                   sumyy = Fin 0, sums4 = Fin 0\<rparr>"

text \<open>The check of the weights that opens both accumulators.\<close>

definition invalidWeights :: "dbl \<Rightarrow> dbl \<Rightarrow> dbl \<Rightarrow> bool" where
  "invalidWeights w11 w12 w22 =
     (w11 < Fin 0 \<or> w11 > Fin 1000000 \<or> fabs w12 > Fin 1000000 \<or> w22 < Fin 0 \<or> w22 > Fin 1000000)"

text \<open>The check of the box against the image that follows it.\<close>

definition outsideImage :: "Image \<Rightarrow> Box2I \<Rightarrow> bool" where
  "outsideImage img bbox =
     (getMinX bbox < 0 \<or> getMaxX bbox \<ge> getWidth img \<or> getMinY bbox < 0 \<or> getMaxY bbox \<ge> getHeight img)"

text \<open>
  The loops \<^verbatim>\<open>for (Y = yl; Y <= yh; Y += 0.25)\<close> over the sub-pixel positions.  With
  interpolation the model is idealised: the positions, which the source holds and steps
  in \<^verbatim>\<open>float\<close> variables, and the values computed from them are exact, so that each
  loop over a pixel takes the four steps \<open>-0.375\<close>, \<open>-0.125\<close>, \<open>0.125\<close>, \<open>0.375\<close> from
  its centre.
\<close>

function forQuarter :: "real \<Rightarrow> real \<Rightarrow> (real \<Rightarrow> 'a \<Rightarrow> 'a) \<Rightarrow> 'a \<Rightarrow> 'a" where
  "forQuarter X xh body acc =
     (if X \<le> xh then forQuarter (X + 1 / 4) xh body (body X acc) else acc)"
  by pat_completeness auto
termination
proof (relation "measure (\<lambda>(X, xh, body, acc). nat \<lceil>(xh - X) * 4 + 1\<rceil>)")
  show "wf (measure (\<lambda>(X, xh, body, acc). nat \<lceil>(xh - X) * 4 + 1\<rceil>))"
    by simp
next
  fix X xh :: real and body :: "real \<Rightarrow> 'a \<Rightarrow> 'a" and acc :: 'a
  assume le: "X \<le> xh"
  define c where "c = \<lceil>(xh - X) * 4 + 1\<rceil>"
  have eq: "(xh - (X + 1 / 4)) * 4 + 1 = ((xh - X) * 4 + 1) - 1"
    by (simp add: algebra_simps)
  have pos: "0 < c"
    using le by (simp add: c_def less_ceiling_iff)
  have step: "\<lceil>(xh - (X + 1 / 4)) * 4 + 1\<rceil> = c - 1"
    unfolding eq c_def by (rule ceiling_diff_one)
  have "nat (c - 1) < nat c"
    using pos by simp
  then show "((X + 1 / 4, xh, body, body X acc), (X, xh, body, acc))
      \<in> measure (\<lambda>(X, xh, body, acc). nat \<lceil>(xh - X) * 4 + 1\<rceil>)"
    by (simp only: in_measure prod.case step c_def [symmetric])
qed

declare forQuarter.simps [simp del]

text \<open>The largest of the exponents at the four corners \<open>(x \<plusminus> 0.375, y \<plusminus> 0.375)\<close>.\<close>

definition cornerExpon :: "real \<Rightarrow> real \<Rightarrow> real \<Rightarrow> real \<Rightarrow> dbl \<Rightarrow> dbl \<Rightarrow> dbl \<Rightarrow> dbl" where
  "cornerExpon xl xh yl yh w11 w12 w22 =
     (let expon = Fin (xl * xl) * w11 + Fin (yl * yl) * w22 + Fin (2 * xl * yl) * w12;
          tmp = Fin (xh * xh) * w11 + Fin (yh * yh) * w22 + Fin (2 * xh * yh) * w12;
          expon = (if expon > tmp then expon else tmp);
          tmp = Fin (xl * xl) * w11 + Fin (yh * yh) * w22 + Fin (2 * xl * yh) * w12;
          expon = (if expon > tmp then expon else tmp);
          tmp = Fin (xh * xh) * w11 + Fin (yl * yl) * w22 + Fin (2 * xh * yl) * w12
      in if expon > tmp then expon else tmp)"

text \<open>
  \<^verbatim>\<open>tmod = *ptr - bkgd\<close>, for the \<^verbatim>\<open>float\<close> variables \<^verbatim>\<open>tmod\<close> and \<^verbatim>\<open>bkgd\<close>: an
  \<^verbatim>\<open>int\<close> pixel is converted to \<^verbatim>\<open>float\<close> before the subtraction, a \<^verbatim>\<open>double\<close>
  pixel is subtracted from in double precision.
\<close>

definition pixelMinus :: "pixelType \<Rightarrow> dbl \<Rightarrow> dbl \<Rightarrow> dbl" where
  "pixelMinus t p bkgd =
     (case t of IntPixel \<Rightarrow> to_float (to_float p - bkgd) | _ \<Rightarrow> to_float (p - bkgd))"

text \<open>
  The body of the pixel loop of the full accumulator without interpolation, for the pixel
  in column \<open>j\<close> and row \<open>i\<close> with value \<open>p\<close>, at the \<^verbatim>\<open>float\<close> positions \<open>x\<close> and
  \<open>y\<close>.  The variables \<^verbatim>\<open>x2\<close>, \<^verbatim>\<open>xy\<close>, \<^verbatim>\<open>y2\<close>, \<^verbatim>\<open>expon\<close>, \<^verbatim>\<open>weight\<close>, \<^verbatim>\<open>tmod\<close>
  and \<^verbatim>\<open>ymod\<close> are \<^verbatim>\<open>float\<close>; a product of two of them, or of one and an \<^verbatim>\<open>int\<close>, is
  a single-precision product; the weights and the sums are \<^verbatim>\<open>double\<close>.
\<close>

definition accumulate ::
    "pixelType \<Rightarrow> dbl \<Rightarrow> dbl \<Rightarrow> int \<Rightarrow> int \<Rightarrow> dbl \<Rightarrow> dbl \<Rightarrow> dbl \<Rightarrow> dbl \<Rightarrow> dbl \<Rightarrow> moments \<Rightarrow> moments" where
  "accumulate t p bkgd j i x y w11 w12 w22 m =
     (let y2 = to_float (y * y); x2 = to_float (x * x); xy = to_float (x * y);
          expon = to_float (x2 * w11 + to_float (Fin 2 * xy) * w12 + y2 * w22)
      in if expon \<le> Fin 14 then
           let weight = to_float (dexp (Fin (- (1 / 2)) * expon));
               tmod = pixelMinus t p bkgd;
               ymod = to_float (tmod * weight)
           in m\<lparr>sum_m := sum_m m + ymod,
                 sumx := sumx m + to_float (ymod * to_float (Fin (of_int j))),
                 sumy := sumy m + to_float (ymod * to_float (Fin (of_int i))),
                 sumxx := sumxx m + to_float (x2 * ymod),
                 sumxy := sumxy m + to_float (xy * ymod),
                 sumyy := sumyy m + to_float (y2 * ymod),
                 sums4 := sums4 m + to_float (to_float (expon * expon) * ymod)\<rparr>
         else m)"

text \<open>The innermost body with interpolation, at the sub-pixel position \<open>(X, Y)\<close>.\<close>

definition accumulateSub ::
    "dbl \<Rightarrow> real \<Rightarrow> real \<Rightarrow> real \<Rightarrow> real \<Rightarrow> dbl \<Rightarrow> dbl \<Rightarrow> dbl \<Rightarrow> moments \<Rightarrow> moments" where
  "accumulateSub tmod xcen ycen X Y w11 w12 w22 m =
     (let interpY2 = Y * Y; interpX2 = X * X; interpXy = X * Y;
          expon = Fin interpX2 * w11 + Fin (2 * interpXy) * w12 + Fin interpY2 * w22;
          weight = dexp (Fin (- (1 / 2)) * expon);
          ymod = tmod * weight
      in m\<lparr>sum_m := sum_m m + ymod,
            sumx := sumx m + ymod * Fin (X + xcen),
            sumy := sumy m + ymod * Fin (Y + ycen),
            sumxx := sumxx m + Fin interpX2 * ymod,
            sumxy := sumxy m + Fin interpXy * ymod,
            sumyy := sumyy m + Fin interpY2 * ymod,
            sums4 := sums4 m + expon * expon * ymod\<rparr>)"

text \<open>The body of the pixel loop with interpolation.\<close>

definition accumulateInterp ::
    "dbl \<Rightarrow> dbl \<Rightarrow> real \<Rightarrow> real \<Rightarrow> real \<Rightarrow> real \<Rightarrow> dbl \<Rightarrow> dbl \<Rightarrow> dbl \<Rightarrow> moments \<Rightarrow> moments" where
  "accumulateInterp p bkgd xcen ycen x y w11 w12 w22 m =
     (let yl = y - 3 / 8; yh = y + 3 / 8; xl = x - 3 / 8; xh = x + 3 / 8;
          expon = cornerExpon xl xh yl yh w11 w12 w22
      in if expon \<le> Fin 9 then
           let tmod = p - bkgd
           in forQuarter yl yh
                (\<lambda>Y. forQuarter xl xh (\<lambda>X. accumulateSub tmod xcen ycen X Y w11 w12 w22)) m
         else m)"

text \<open>
  \<^verbatim>\<open>float x = j - xcen\<close>, for the \<^verbatim>\<open>float\<close> parameter \<^verbatim>\<open>xcen\<close> that receives the centre:
  the index is converted and the difference is taken in single precision.
\<close>

definition offset :: "real \<Rightarrow> int \<Rightarrow> dbl" where
  "offset cen k = to_float (to_float (Fin (of_int k)) - to_float (Fin cen))"

text \<open>One pixel, one row, all rows of the box.\<close>

definition momPixel ::
    "Image \<Rightarrow> real \<Rightarrow> real \<Rightarrow> dbl \<Rightarrow> bool \<Rightarrow> dbl \<Rightarrow> dbl \<Rightarrow> dbl \<Rightarrow> int \<Rightarrow> moments \<Rightarrow> int \<Rightarrow> moments" where
  "momPixel img xcen ycen bkgd interpflag w11 w12 w22 i m j =
     (if interpflag then
        let y = of_int i - ycen; x = of_int j - xcen
        in accumulateInterp (pixel img j i) bkgd xcen ycen x y w11 w12 w22 m
      else
        let y = offset ycen i; x = offset xcen j
        in accumulate (pixelT img) (pixel img j i) (to_float bkgd) j i x y w11 w12 w22 m)"

definition momRow ::
    "Image \<Rightarrow> real \<Rightarrow> real \<Rightarrow> Box2I \<Rightarrow> dbl \<Rightarrow> bool \<Rightarrow> dbl \<Rightarrow> dbl \<Rightarrow> dbl \<Rightarrow> moments \<Rightarrow> int \<Rightarrow> moments" where
  "momRow img xcen ycen bbox bkgd interpflag w11 w12 w22 m i =
     foldl (momPixel img xcen ycen bkgd interpflag w11 w12 w22 i) m [getMinX bbox..getMaxX bbox]"

definition momLoop ::
    "Image \<Rightarrow> real \<Rightarrow> real \<Rightarrow> Box2I \<Rightarrow> dbl \<Rightarrow> bool \<Rightarrow> dbl \<Rightarrow> dbl \<Rightarrow> dbl \<Rightarrow> moments" where
  "momLoop img xcen ycen bbox bkgd interpflag w11 w12 w22 =
     foldl (momRow img xcen ycen bbox bkgd interpflag w11 w12 w22) zeroMoments
       [getMinY bbox..getMaxY bbox]"

text \<open>
  \<^verbatim>\<open>calcmom\<close>, the full accumulator (weighted moments of an object up to second order).
  It throws, or returns its status (\<open>0\<close> or \<open>-1\<close>) with the amplitude \<^verbatim>\<open>pI0\<close> and the
  sums written through its reference parameters.
\<close>

definition calcmom ::
    "Image \<Rightarrow> real \<Rightarrow> real \<Rightarrow> Box2I \<Rightarrow> dbl \<Rightarrow> bool \<Rightarrow> dbl \<Rightarrow> dbl \<Rightarrow> dbl \<Rightarrow> bool
      \<Rightarrow> error + (int \<times> dbl \<times> moments)" where
  "calcmom img xcen ycen bbox bkgd interpflag w11 w12 w22 negative =
     (if invalidWeights w11 w12 w22 then Inl InvalidParameterError
      else if outsideImage img bbox then Inl LengthError
      else
        let m = momLoop img xcen ycen bbox bkgd interpflag w11 w12 w22;
            weights = getWeights w11 w12 w22;
            detW = fst (snd weights) * snd (snd (snd weights))
                     - fst (snd (snd weights)) * fst (snd (snd weights));
            I0 = sum_m m / (Fin pi * dsqrt detW)
        in if negative then
             Inr (if sum_m m < Fin 0 \<and> sumxx m < Fin 0 \<and> sumyy m < Fin 0 then 0 else - 1, I0, m)
           else
             Inr (if sum_m m > Fin 0 \<and> sumxx m > Fin 0 \<and> sumyy m > Fin 0 then 0 else - 1, I0, m))"

text \<open>
  The flux-only accumulator (the overload of \<^verbatim>\<open>calcmom\<close> with the single result
  \<^verbatim>\<open>psum\<close>): the same checks and loops, only \<^verbatim>\<open>sum\<close> is accumulated.
\<close>

definition fluxPlain ::
    "pixelType \<Rightarrow> dbl \<Rightarrow> dbl \<Rightarrow> dbl \<Rightarrow> dbl \<Rightarrow> dbl \<Rightarrow> dbl \<Rightarrow> dbl \<Rightarrow> dbl \<Rightarrow> dbl" where
  "fluxPlain t p bkgd x y w11 w12 w22 s =
     (let y2 = to_float (y * y); x2 = to_float (x * x); xy = to_float (x * y);
          expon = to_float (x2 * w11 + to_float (Fin 2 * xy) * w12 + y2 * w22)
      in if expon \<le> Fin 14 then
           let weight = to_float (dexp (Fin (- (1 / 2)) * expon));
               tmod = pixelMinus t p bkgd;
               ymod = to_float (tmod * weight)
           in s + ymod
         else s)"

definition fluxSub :: "dbl \<Rightarrow> real \<Rightarrow> real \<Rightarrow> dbl \<Rightarrow> dbl \<Rightarrow> dbl \<Rightarrow> dbl \<Rightarrow> dbl" where
  "fluxSub tmod X Y w11 w12 w22 s =
     (let interpY2 = Y * Y; interpX2 = X * X; interpXy = X * Y;
          expon = Fin interpX2 * w11 + Fin (2 * interpXy) * w12 + Fin interpY2 * w22;
          weight = dexp (Fin (- (1 / 2)) * expon);
          ymod = tmod * weight
      in s + ymod)"

definition fluxInterp :: "dbl \<Rightarrow> dbl \<Rightarrow> real \<Rightarrow> real \<Rightarrow> dbl \<Rightarrow> dbl \<Rightarrow> dbl \<Rightarrow> dbl \<Rightarrow> dbl" where
  "fluxInterp p bkgd x y w11 w12 w22 s =
     (let yl = y - 3 / 8; yh = y + 3 / 8; xl = x - 3 / 8; xh = x + 3 / 8;
          expon = cornerExpon xl xh yl yh w11 w12 w22
      in if expon \<le> Fin 9 then
           let tmod = p - bkgd
           in forQuarter yl yh (\<lambda>Y. forQuarter xl xh (\<lambda>X. fluxSub tmod X Y w11 w12 w22)) s
         else s)"

definition fluxPixel ::
    "Image \<Rightarrow> real \<Rightarrow> real \<Rightarrow> dbl \<Rightarrow> bool \<Rightarrow> dbl \<Rightarrow> dbl \<Rightarrow> dbl \<Rightarrow> int \<Rightarrow> dbl \<Rightarrow> int \<Rightarrow> dbl" where
  "fluxPixel img xcen ycen bkgd interpflag w11 w12 w22 i s j =
     (if interpflag then
        let y = of_int i - ycen; x = of_int j - xcen
        in fluxInterp (pixel img j i) bkgd x y w11 w12 w22 s
      else
        let y = offset ycen i; x = offset xcen j
        in fluxPlain (pixelT img) (pixel img j i) (to_float bkgd) x y w11 w12 w22 s)"

definition calcmomFlux ::
    "Image \<Rightarrow> real \<Rightarrow> real \<Rightarrow> Box2I \<Rightarrow> dbl \<Rightarrow> bool \<Rightarrow> dbl \<Rightarrow> dbl \<Rightarrow> dbl \<Rightarrow> error + dbl" where
  "calcmomFlux img xcen ycen bbox bkgd interpflag w11 w12 w22 =
     (if invalidWeights w11 w12 w22 then Inl InvalidParameterError
      else if outsideImage img bbox then Inl LengthError
      else Inr (foldl (\<lambda>s i. foldl (fluxPixel img xcen ycen bkgd interpflag w11 w12 w22 i) s
                                [getMinX bbox..getMaxX bbox])
                  (Fin 0) [getMinY bbox..getMaxY bbox]))"

section \<open>The result of a shape measurement\<close>

datatype flag = FAILURE | UNWEIGHTED_BAD | UNWEIGHTED | SHIFT | MAXITER | PSF_SHAPE_BAD

text \<open>
  \<^verbatim>\<open>SdssShapeResult\<close>: the shape, centroid and flux components with their
  uncertainties, and the flag bits.  A fresh result holds not-a-number in every field
  and has no flag set.
\<close>

record SdssShapeResult =
  x :: dbl
  y :: dbl
  xx :: dbl
  yy :: dbl
  xy :: dbl
  xxErr :: dbl
  yyErr :: dbl
  xyErr :: dbl
  xx_yy_Cov :: dbl
  xx_xy_Cov :: dbl
  yy_xy_Cov :: dbl
  instFlux :: dbl
  instFluxErr :: dbl
  instFlux_xx_Cov :: dbl
  instFlux_yy_Cov :: dbl
  instFlux_xy_Cov :: dbl
  flags :: "flag \<Rightarrow> bool"

definition newSdssShapeResult :: SdssShapeResult where
  "newSdssShapeResult =
     \<lparr>x = NaN, y = NaN, xx = NaN, yy = NaN, xy = NaN, xxErr = NaN, yyErr = NaN, xyErr = NaN,
      xx_yy_Cov = NaN, xx_xy_Cov = NaN, yy_xy_Cov = NaN, instFlux = NaN, instFluxErr = NaN,
      instFlux_xx_Cov = NaN, instFlux_yy_Cov = NaN, instFlux_xy_Cov = NaN,
      flags = (\<lambda>_. False)\<rparr>"

text \<open>\<^verbatim>\<open>shape->flags[f.number] = b\<close>.\<close>

definition setFlag :: "flag \<Rightarrow> bool \<Rightarrow> SdssShapeResult \<Rightarrow> SdssShapeResult" where
  "setFlag f b shape = shape\<lparr>flags := (flags shape)(f := b)\<rparr>"

section \<open>Error analysis\<close>

type_synonym Matrix4d = "nat \<Rightarrow> nat \<Rightarrow> dbl"

text \<open>The symmetric matrix with the given diagonal and upper triangle.\<close>

definition symmetric4 ::
    "dbl \<Rightarrow> dbl \<Rightarrow> dbl \<Rightarrow> dbl \<Rightarrow> dbl \<Rightarrow> dbl \<Rightarrow> dbl \<Rightarrow> dbl \<Rightarrow> dbl \<Rightarrow> dbl \<Rightarrow> Matrix4d" where
  "symmetric4 f00 f11 f22 f33 f01 f02 f03 f12 f13 f23 =
     (\<lambda>i j. [[f00, f01, f02, f03], [f01, f11, f12, f13], [f02, f12, f22, f23],
             [f03, f13, f23, f33]] ! i ! j)"

text \<open>
  \<^verbatim>\<open>calc_fisher\<close>: the Fisher matrix of the least-squares fit, from the amplitude and the
  moments held in the shape and the background variance.  Its parameter \<^verbatim>\<open>bkgd_var\<close>
  and its locals \<^verbatim>\<open>A\<close>, \<^verbatim>\<open>sigma11W\<close>, \<^verbatim>\<open>sigma12W\<close>, \<^verbatim>\<open>sigma22W\<close> are \<^verbatim>\<open>float\<close>, so
  that the determinant \<^verbatim>\<open>D\<close> is formed in single precision; the rest is \<^verbatim>\<open>double\<close>.
\<close>

definition calc_fisher :: "SdssShapeResult \<Rightarrow> dbl \<Rightarrow> error + Matrix4d" where
  "calc_fisher shape bkgd_var =
     (let bkgd_var = to_float bkgd_var;
          A = to_float (instFlux shape); sigma11W = to_float (xx shape);
          sigma12W = to_float (xy shape); sigma22W = to_float (yy shape);
          D = to_float (to_float (sigma11W * sigma22W) - to_float (sigma12W * sigma12W))
      in if D \<le> Fin epsilon_double then Inl DomainError
         else if bkgd_var \<le> Fin 0 then Inl DomainError
         else
           let F = Fin pi * dsqrt D / bkgd_var;
               fac = F * A / (Fin 4 * D);
               f00 = F;
               f01 = fac * sigma22W;
               f02 = fac * sigma11W;
               f03 = - fac * Fin 2 * sigma12W;
               fac = Fin 3 * F * A * A / (Fin 16 * D * D);
               f11 = fac * sigma22W * sigma22W;
               f22 = fac * sigma11W * sigma11W;
               f33 = fac * Fin 4 * (to_float (sigma12W * sigma12W) + D / Fin 3);
               f12 = f33 / Fin 4;
               f13 = fac * to_float (to_float (Fin (- 2) * sigma22W) * sigma12W);
               f23 = fac * to_float (to_float (Fin (- 2) * sigma11W) * sigma12W)
           in Inr (symmetric4 f00 f11 f22 f33 f01 f02 f03 f12 f13 f23))"

text \<open>
  \<^verbatim>\<open>Matrix4d::inverse()\<close> of the linear-algebra library (not part of these sources): for
  a fixed size of four it divides the transposed matrix of cofactors by the determinant
  and checks nothing.
\<close>

definition det3 :: "Matrix4d \<Rightarrow> nat list \<Rightarrow> nat list \<Rightarrow> dbl" where
  "det3 M rs cs =
     M (rs ! 0) (cs ! 0) * (M (rs ! 1) (cs ! 1) * M (rs ! 2) (cs ! 2)
                            - M (rs ! 1) (cs ! 2) * M (rs ! 2) (cs ! 1))
     - M (rs ! 0) (cs ! 1) * (M (rs ! 1) (cs ! 0) * M (rs ! 2) (cs ! 2)
                              - M (rs ! 1) (cs ! 2) * M (rs ! 2) (cs ! 0))
     + M (rs ! 0) (cs ! 2) * (M (rs ! 1) (cs ! 0) * M (rs ! 2) (cs ! 1)
                              - M (rs ! 1) (cs ! 1) * M (rs ! 2) (cs ! 0))"

definition cofactor :: "Matrix4d \<Rightarrow> nat \<Rightarrow> nat \<Rightarrow> dbl" where
  "cofactor M i j =
     (let d = det3 M (filter (\<lambda>k. k \<noteq> i) [0, 1, 2, 3]) (filter (\<lambda>k. k \<noteq> j) [0, 1, 2, 3])
      in if even (i + j) then d else - d)"

definition determinant4 :: "Matrix4d \<Rightarrow> dbl" where
  "determinant4 M =
     M 0 0 * cofactor M 0 0 + M 0 1 * cofactor M 0 1 + M 0 2 * cofactor M 0 2
       + M 0 3 * cofactor M 0 3"

definition inverse4 :: "Matrix4d \<Rightarrow> Matrix4d" where
  "inverse4 M = (\<lambda>i j. cofactor M j i / determinant4 M)"

text \<open>
  The error terms of \<^verbatim>\<open>getAdaptiveMoments\<close>: the Fisher matrix, its inverse, and the
  variances and covariances read off it (the moments are ordered \<open>xx, yy, xy\<close>).
\<close>

definition errorTerms :: "SdssShapeResult \<Rightarrow> dbl \<Rightarrow> error + SdssShapeResult" where
  "errorTerms shape bkgd_var =
     (case calc_fisher shape bkgd_var of
        Inl e \<Rightarrow> Inl e
      | Inr fisher \<Rightarrow>
          let cov = inverse4 fisher
          in Inr (shape\<lparr>instFluxErr := dsqrt (cov 0 0),
                        xxErr := dsqrt (cov 1 1),
                        yyErr := dsqrt (cov 2 2),
                        xyErr := dsqrt (cov 3 3),
                        instFlux_xx_Cov := cov 0 1,
                        instFlux_yy_Cov := cov 0 2,
                        instFlux_xy_Cov := cov 0 3,
                        xx_yy_Cov := cov 1 2,
                        xx_xy_Cov := cov 1 3,
                        yy_xy_Cov := cov 2 3\<rparr>))"

section \<open>The workhorse for adaptive moments\<close>

text \<open>
  The arguments of \<^verbatim>\<open>getAdaptiveMoments\<close> that stay fixed, with the centre already
  known to be a number.
\<close>

record amArgs =
  mimage :: Image
  bkgd :: dbl
  xcen :: real
  ycen :: real
  shiftmax :: dbl
  maxIter :: int
  tol1 :: dbl
  tol2 :: dbl
  negative :: bool

text \<open>
  Its local variables, and the result it writes through the pointer \<^verbatim>\<open>shape\<close>.  The
  sums are not initialised by the source: they hold whatever \<^verbatim>\<open>calcmom\<close> wrote last.
\<close>

record amState =
  I0 :: dbl
  mom :: moments
  sigma11W :: dbl
  sigma12W :: dbl
  sigma22W :: dbl
  w11 :: dbl
  w12 :: dbl
  w22 :: dbl
  e1_old :: dbl
  e2_old :: dbl
  sigma11_ow_old :: dbl
  interpflag :: bool
  bbox :: Box2I
  iter :: int
  shape :: SdssShapeResult

text \<open>
  How a pass through the loop body ends: at its end (\<^verbatim>\<open>iter++\<close> follows), with
  \<^verbatim>\<open>break\<close>, with \<^verbatim>\<open>return false\<close>, or with an exception out of \<^verbatim>\<open>calcmom\<close>.
\<close>

datatype control = Continue amState | Break amState | Return bool amState | Throw error amState

definition flagUnweighted :: "amState \<Rightarrow> amState" where
  "flagUnweighted st = st\<lparr>shape := setFlag UNWEIGHTED True (shape st)\<rparr>"

text \<open>
  The first part of the body: the box, the weights of the current weighting function,
  and the switch to interpolation.
\<close>

definition amWeights :: "amArgs \<Rightarrow> amState \<Rightarrow> control" where
  "amWeights a st =
     (let st = st\<lparr>bbox := computeAdaptiveMomentsBBox (getBBoxLocal (mimage a)) (xcen a) (ycen a)
                              (sigma11W st) (sigma12W st) (sigma22W st)\<rparr>;
          weights = getWeights (sigma11W st) (sigma12W st) (sigma22W st)
      in if \<not> fst (fst weights) then Break (flagUnweighted st)
         else
           let detW = snd (fst weights)
           in if sigma11W st * sigma22W st < sigma12W st * sigma12W st - Fin epsilon_float
              then Return False st
              else
                let ow11 = w11 st; ow12 = w12 st; ow22 = w22 st;
                    st = st\<lparr>w11 := fst (snd weights), w12 := fst (snd (snd weights)),
                            w22 := snd (snd (snd weights))\<rparr>
                in if shouldInterp (sigma11W st) (sigma22W st) detW then
                     if \<not> interpflag st then
                       let st = st\<lparr>interpflag := True\<rparr>
                       in if iter st > 0 then
                            Continue (st\<lparr>sigma11_ow_old := Fin 1000000, w11 := ow11, w12 := ow12,
                                         w22 := ow22, iter := iter st - 1\<rparr>)
                          else Continue st
                     else Continue st
                   else Continue st)"

text \<open>
  The last part of the body, once the moments \<open>sigma11_ow\<close>, \<open>sigma12_ow\<close>, \<open>sigma22_ow\<close>
  of weight times object are positive: the test for convergence and the next weighting
  function.
\<close>

definition amNextWeights :: "amArgs \<Rightarrow> dbl \<Rightarrow> dbl \<Rightarrow> dbl \<Rightarrow> amState \<Rightarrow> control" where
  "amNextWeights a sigma11_ow sigma12_ow sigma22_ow st =
     (let d = sigma11_ow + sigma22_ow;
          e1 = (sigma11_ow - sigma22_ow) / d;
          e2 = Fin 2 * sigma12_ow / d
      in if iter st > 0 \<and> fabs (e1 - e1_old st) < tol1 a \<and> fabs (e2 - e2_old st) < tol1 a
              \<and> fabs (sigma11_ow / sigma11_ow_old st - Fin 1) < tol2 a
         then Break st
         else
           let st = st\<lparr>e1_old := e1, e2_old := e2, sigma11_ow_old := sigma11_ow\<rparr>;
               weights = getWeights sigma11_ow sigma12_ow sigma22_ow
           in if \<not> fst (fst weights) then Break (flagUnweighted st)
              else
                let ow11 = fst (snd weights); ow12 = fst (snd (snd weights));
                    ow22 = snd (snd (snd weights));
                    n11 = ow11 - w11 st; n12 = ow12 - w12 st; n22 = ow22 - w22 st;
                    weights = getWeights n11 n12 n22
                in if \<not> fst (fst weights) then Break (flagUnweighted st)
                   else
                     let st = st\<lparr>sigma11W := fst (snd weights),
                                 sigma12W := fst (snd (snd weights)),
                                 sigma22W := snd (snd (snd weights))\<rparr>
                     in if sigma11W st \<le> Fin 0 \<or> sigma22W st \<le> Fin 0
                        then Break (flagUnweighted st)
                        else Continue st)"

text \<open>
  The middle part: the moments with the current weights, the centroid and the check of
  its shift.
\<close>

definition amMoments :: "amArgs \<Rightarrow> amState \<Rightarrow> control" where
  "amMoments a st =
     (case calcmom (mimage a) (xcen a) (ycen a) (bbox st) (bkgd a) (interpflag st)
             (w11 st) (w12 st) (w22 st) (negative a) of
        Inl e \<Rightarrow> Throw e st
      | Inr (status, amplitude, m) \<Rightarrow>
          let st = st\<lparr>I0 := amplitude, mom := m\<rparr>
          in if status < 0 then Break (flagUnweighted st)
             else
               let st = st\<lparr>shape := (shape st)\<lparr>x := sumx m / sum_m m, y := sumy m / sum_m m\<rparr>\<rparr>;
                   st = (if fabs (x (shape st) - Fin (xcen a)) > shiftmax a
                            \<or> fabs (y (shape st) - Fin (ycen a)) > shiftmax a
                         then st\<lparr>shape := setFlag SHIFT True (shape st)\<rparr> else st);
                   sigma11_ow = sumxx m / sum_m m;
                   sigma22_ow = sumyy m / sum_m m;
                   sigma12_ow = sumxy m / sum_m m
               in if sigma11_ow \<le> Fin 0 \<or> sigma22_ow \<le> Fin 0 then Break (flagUnweighted st)
                  else amNextWeights a sigma11_ow sigma12_ow sigma22_ow st)"

definition amBody :: "amArgs \<Rightarrow> amState \<Rightarrow> control" where
  "amBody a st = (case amWeights a st of Continue st' \<Rightarrow> amMoments a st' | other \<Rightarrow> other)"

text \<open>
  The loop \<^verbatim>\<open>for (; iter < maxIter; iter++)\<close>.  The body lowers \<^verbatim>\<open>iter\<close> once at
  most, when it switches interpolation on, so the loop ends.  It is left with \<open>Break\<close>,
  by a \<^verbatim>\<open>break\<close> of the body or because the count has reached \<^verbatim>\<open>maxIter\<close>, or with the
  \<open>Return\<close> or \<open>Throw\<close> of the body; never with \<open>Continue\<close>.
\<close>

function amLoop :: "amArgs \<Rightarrow> amState \<Rightarrow> control" where
  "amLoop a st =
     (if iter st < maxIter a then
        (case amBody a st of
           Continue st' \<Rightarrow> amLoop a (st'\<lparr>iter := iter st' + 1\<rparr>)
         | other \<Rightarrow> other)
      else Break st)"
  by pat_completeness auto
termination
proof (relation "measure (\<lambda>(a, st). nat (2 * (maxIter a - iter st) + (if interpflag st then 0 else 1)))")
  show "wf (measure (\<lambda>(a, st). nat (2 * (maxIter a - iter st) + (if interpflag st then 0 else 1))))"
    by simp
next
  fix a :: amArgs and st st' :: amState
  assume lt: "iter st < maxIter a" and body: "amBody a st = Continue st'"
  from body obtain st1 where w: "amWeights a st = Continue st1" and m: "amMoments a st1 = Continue st'"
    by (auto simp: amBody_def split: control.splits)
  from w have s1: "(iter st1 = iter st \<and> (interpflag st \<longrightarrow> interpflag st1))
      \<or> (iter st1 = iter st - 1 \<and> \<not> interpflag st \<and> interpflag st1)"
    by (auto simp: amWeights_def Let_def flagUnweighted_def split: if_splits)
  have n: "amNextWeights a s11 s12 s22 t = Continue t' \<Longrightarrow>
      iter t' = iter t \<and> interpflag t' = interpflag t" for s11 s12 s22 t t'
    by (auto simp: amNextWeights_def Let_def flagUnweighted_def split: if_splits)
  from m have s2: "iter st' = iter st1 \<and> interpflag st' = interpflag st1"
    by (auto simp: amMoments_def Let_def flagUnweighted_def
          split: sum.splits prod.splits if_splits dest!: n)
  from s1 s2 lt show "((a, st'\<lparr>iter := iter st' + 1\<rparr>), (a, st))
      \<in> measure (\<lambda>(a, st). nat (2 * (maxIter a - iter st) + (if interpflag st then 0 else 1)))"
    by auto
qed

declare amLoop.simps [simp del]

text \<open>The locals at the start of the loop; \<open>junk\<close> is the content of the sums, which
  the source leaves uninitialised, and \<open>result\<close> the object behind \<^verbatim>\<open>shape\<close>.\<close>

definition amInit :: "moments \<Rightarrow> SdssShapeResult \<Rightarrow> amState" where
  "amInit junk result =
     \<lparr>I0 = Fin 0, mom = junk, sigma11W = Fin (3 / 2), sigma12W = Fin 0, sigma22W = Fin (3 / 2),
      w11 = Fin (- 1), w12 = Fin (- 1), w22 = Fin (- 1),
      e1_old = Fin 1000000, e2_old = Fin 1000000, sigma11_ow_old = Fin 1000000,
      interpflag = False, bbox = emptyBox, iter = 0, shape = result\<rparr>"

text \<open>After the loop: too many iterations, and moments that vanish.\<close>

definition amIterLimit :: "amArgs \<Rightarrow> amState \<Rightarrow> amState" where
  "amIterLimit a st =
     (if iter st = maxIter a
      then st\<lparr>shape := setFlag MAXITER True (setFlag UNWEIGHTED True (shape st))\<rparr>
      else st)"

definition amZeroCheck :: "amState \<Rightarrow> amState" where
  "amZeroCheck st =
     (if deq (sumxx (mom st) + sumyy (mom st)) (Fin 0) then flagUnweighted st else st)"

text \<open>
  Problems: the un-weighted moments.  The call of \<^verbatim>\<open>calcmom\<close> with zero weights throws,
  or fails (the result is left at \<^verbatim>\<open>return false\<close>), or gives the object moments.
\<close>

definition amUnweighted :: "amArgs \<Rightarrow> amState \<Rightarrow> control" where
  "amUnweighted a st =
     (if flags (shape st) UNWEIGHTED then
        let st = st\<lparr>w11 := Fin 0, w12 := Fin 0, w22 := Fin 0\<rparr>
        in case calcmom (mimage a) (xcen a) (ycen a) (bbox st) (bkgd a) (interpflag st)
                  (w11 st) (w12 st) (w22 st) (negative a) of
             Inl e \<Rightarrow> Throw e st
           | Inr (status, amplitude, m) \<Rightarrow>
               let st = st\<lparr>I0 := amplitude, mom := m\<lparr>sums4 := sums4 (mom st)\<rparr>\<rparr>
               in if status < 0 \<or> (\<not> negative a \<and> sum_m m \<le> Fin 0)
                       \<or> (negative a \<and> sum_m m \<ge> Fin 0)
                  then
                    let st = st\<lparr>shape := setFlag UNWEIGHTED_BAD True
                                             (setFlag UNWEIGHTED False (shape st))\<rparr>;
                        st = (if sum_m m > Fin 0
                              then st\<lparr>shape := (shape st)\<lparr>xx := Fin (1 / 12), xy := Fin 0,
                                                            yy := Fin (1 / 12)\<rparr>\<rparr>
                              else st)
                    in Return False st
                  else Continue (st\<lparr>sigma11W := sumxx m / sum_m m,
                                      sigma12W := sumxy m / sum_m m,
                                      sigma22W := sumyy m / sum_m m\<rparr>)
      else Continue st)"

text \<open>The results, and their errors where the variance at the centre, held in a
  \<^verbatim>\<open>float\<close>, is positive.\<close>

definition amStore :: "amArgs \<Rightarrow> amState \<Rightarrow> (error + bool) \<times> SdssShapeResult" where
  "amStore a st =
     (let result = (shape st)\<lparr>instFlux := I0 st, xx := sigma11W st, xy := sigma12W st,
                               yy := sigma22W st\<rparr>
      in if \<not> deq (xx result + yy result) (Fin 0) then
           let ix = positionToIndex (xcen a); iy = positionToIndex (ycen a)
           in if ix \<ge> 0 \<and> ix < getWidth (mimage a) \<and> iy \<ge> 0 \<and> iy < getHeight (mimage a) then
                let bkgd_var = to_float (getVariance (mimage a) ix iy)
                in if bkgd_var > Fin 0 then
                     if \<not> flags result UNWEIGHTED then
                       (case errorTerms result bkgd_var of
                          Inl e \<Rightarrow> (Inl e, result)
                        | Inr result' \<Rightarrow> (Inr True, result'))
                     else (Inr True, result)
                   else (Inr True, result)
              else (Inr True, result)
         else (Inr True, result))"

definition amFinish :: "amArgs \<Rightarrow> amState \<Rightarrow> (error + bool) \<times> SdssShapeResult" where
  "amFinish a st =
     (case amUnweighted a (amZeroCheck (amIterLimit a st)) of
        Continue st' \<Rightarrow> amStore a st'
      | Break st' \<Rightarrow> amStore a st'
      | Return b st' \<Rightarrow> (Inr b, shape st')
      | Throw e st' \<Rightarrow> (Inl e, shape st'))"

text \<open>
  \<^verbatim>\<open>getAdaptiveMoments\<close>.  A coordinate of the centre is a finite number or
  not-a-number (\<open>None\<close>).  The outcome is the exception thrown or the value returned,
  and the result object as the function left it.
\<close>

type_synonym coord = "real option"

definition getAdaptiveMoments ::
    "moments \<Rightarrow> Image \<Rightarrow> dbl \<Rightarrow> coord \<Rightarrow> coord \<Rightarrow> dbl \<Rightarrow> SdssShapeResult \<Rightarrow> int \<Rightarrow> dbl \<Rightarrow> dbl \<Rightarrow> bool
      \<Rightarrow> (error + bool) \<times> SdssShapeResult" where
  "getAdaptiveMoments junk img background xc yc shiftMax result maxIt tolerance1 tolerance2 neg =
     (case (xc, yc) of
        (Some xcen0, Some ycen0) \<Rightarrow>
          let a = \<lparr>mimage = img, bkgd = background, xcen = xcen0, ycen = ycen0,
                   shiftmax = shiftMax, maxIter = maxIt, tol1 = tolerance1, tol2 = tolerance2,
                   negative = neg\<rparr>
          in (case amLoop a (amInit junk result) of
                Continue st \<Rightarrow> amFinish a st
              | Break st \<Rightarrow> amFinish a st
              | Return b st \<Rightarrow> (Inr b, shape st)
              | Throw e st \<Rightarrow> (Inl e, shape st))
      | _ \<Rightarrow> (Inr False, setFlag UNWEIGHTED_BAD True result))"

section \<open>The public entry points\<close>

record SdssShapeControl =
  background :: dbl
  maxIter_c :: int
  maxShift :: dbl
  tol1_c :: dbl
  tol2_c :: dbl
  doMeasurePsf :: bool

text \<open>\<^verbatim>\<open>SdssShapeAlgorithm::computeAdaptiveMoments\<close>: it throws, or returns the result.\<close>

definition computeAdaptiveMoments ::
    "moments \<Rightarrow> Image \<Rightarrow> coord \<times> coord \<Rightarrow> bool \<Rightarrow> SdssShapeControl \<Rightarrow> error + SdssShapeResult" where
  "computeAdaptiveMoments junk img center neg control =
     (let xc = map_option (\<lambda>c. c - of_int (getX0 img)) (fst center);
          yc = map_option (\<lambda>c. c - of_int (getY0 img)) (snd center);
          shiftMax = maxShift control;
          shiftMax = (if shiftMax < Fin 2 then Fin 2
                      else if shiftMax > Fin 10 then Fin 10 else shiftMax);
          (outcome, result) =
             getAdaptiveMoments junk img (background control) xc yc shiftMax newSdssShapeResult
               (maxIter_c control) (tol1_c control) (tol2_c control) neg;
          result = (case outcome of
                      Inr ok \<Rightarrow> setFlag FAILURE (\<not> ok) result
                    | Inl err \<Rightarrow> setFlag FAILURE True result);
          result = (if flags result UNWEIGHTED \<or> flags result SHIFT
                    then setFlag FAILURE True result else result);
          IxxIyy = xx result * yy result;
          Ixy_sq = xy result * xy result;
          epsilon = Fin (1 / 1000000)
      in if IxxIyy < (Fin 1 + epsilon) * Ixy_sq \<and> \<not> flags result FAILURE then Inl LogicError
         else
           let instFluxScale = Fin (2 * pi) * dsqrt (IxxIyy - Ixy_sq);
               result = result\<lparr>instFlux := instFlux result * instFluxScale,
                                instFluxErr := instFluxErr result * instFluxScale,
                                x := x result + Fin (of_int (getX0 img)),
                                y := y result + Fin (of_int (getY0 img))\<rparr>
           in Inr (if hasVariance img
                   then result\<lparr>instFlux_xx_Cov := instFlux_xx_Cov result * instFluxScale,
                                instFlux_yy_Cov := instFlux_yy_Cov result * instFluxScale,
                                instFlux_xy_Cov := instFlux_xy_Cov result * instFluxScale\<rparr>
                   else result))"

text \<open>
  \<^verbatim>\<open>SdssShapeAlgorithm::computeFixedMomentsFlux\<close>, for a shape (a quadrupole
  \<open>ixx, iyy, ixy\<close>) and a finite centre in parent coordinates.  A fresh \<^verbatim>\<open>FluxResult\<close>
  holds not-a-number.
\<close>

record Quadrupole =
  getIxx :: dbl
  getIyy :: dbl
  getIxy :: dbl

definition getDeterminant :: "Quadrupole \<Rightarrow> dbl" where
  "getDeterminant q = getIxx q * getIyy q - getIxy q * getIxy q"

record FluxResult =
  instFlux_f :: dbl
  instFluxErr_f :: dbl

definition computeFixedMomentsFlux :: "Image \<Rightarrow> Quadrupole \<Rightarrow> real \<times> real \<Rightarrow> error + FluxResult" where
  "computeFixedMomentsFlux img q center =
     (let localX = fst center - of_int (getX0 img);
          localY = snd center - of_int (getY0 img);
          box = computeAdaptiveMomentsBBox (getBBoxLocal img) localX localY
                  (getIxx q) (getIxy q) (getIyy q);
          weights = getWeights (getIxx q) (getIxy q) (getIyy q);
          result = \<lparr>instFlux_f = NaN, instFluxErr_f = NaN\<rparr>
      in if \<not> fst (fst weights) then Inl InvalidParameterError
         else
           let wt11 = fst (snd weights); wt12 = fst (snd (snd weights));
               wt22 = snd (snd (snd weights));
               interp = shouldInterp (getIxx q) (getIyy q) (snd (fst weights))
           in case calcmomFlux img localX localY box (Fin 0) interp wt11 wt12 wt22 of
                Inl e \<Rightarrow> Inl e
              | Inr sum0 \<Rightarrow>
                  let result = result\<lparr>instFlux_f := sum0 * Fin 2\<rparr>
                  in if hasVariance img then
                       let ix = static_cast_int (fst center - of_int (getX0 img));
                           iy = static_cast_int (snd center - of_int (getY0 img))
                       in if \<not> contains (getBBoxLocal img) ix iy then Inl RuntimeError
                          else
                            let var = getVariance img ix iy;
                                wArea = Fin pi * dsqrt (getDeterminant q)
                            in Inr (result\<lparr>instFluxErr_f := Fin 2 * dsqrt (var * wArea)\<rparr>)
                     else Inr result)"

section \<open>The sums in closed form\<close>

text \<open>
  What the accumulator without interpolation computes, written with sums over the rows
  and columns of the box: the exponent of the weight at the pixel in column \<open>j\<close> and row
  \<open>i\<close> (the variable \<^verbatim>\<open>expon\<close>), the weighted value of that pixel (the variable
  \<^verbatim>\<open>ymod\<close>), what the pixel adds to a sum that takes \<open>f j i ymod\<close> from it (nothing
  beyond the cutoff at \<open>14\<close>), and the sum of that over the box.
\<close>

definition exponent :: "real \<Rightarrow> real \<Rightarrow> dbl \<Rightarrow> dbl \<Rightarrow> dbl \<Rightarrow> int \<Rightarrow> int \<Rightarrow> dbl" where
  "exponent cx cy wa wb wc j i =
     to_float (to_float (offset cx j * offset cx j) * wa
               + to_float (Fin 2 * to_float (offset cx j * offset cy i)) * wb
               + to_float (offset cy i * offset cy i) * wc)"

definition weightedValue ::
    "Image \<Rightarrow> real \<Rightarrow> real \<Rightarrow> dbl \<Rightarrow> dbl \<Rightarrow> dbl \<Rightarrow> dbl \<Rightarrow> int \<Rightarrow> int \<Rightarrow> dbl" where
  "weightedValue img cx cy bg wa wb wc j i =
     to_float (pixelMinus (pixelT img) (pixel img j i) (to_float bg)
               * to_float (dexp (Fin (- (1 / 2)) * exponent cx cy wa wb wc j i)))"

definition contribution ::
    "Image \<Rightarrow> real \<Rightarrow> real \<Rightarrow> dbl \<Rightarrow> dbl \<Rightarrow> dbl \<Rightarrow> dbl \<Rightarrow> (int \<Rightarrow> int \<Rightarrow> dbl \<Rightarrow> dbl) \<Rightarrow> int \<Rightarrow> int \<Rightarrow> dbl" where
  "contribution img cx cy bg wa wb wc f j i =
     (if exponent cx cy wa wb wc j i \<le> Fin 14
      then f j i (weightedValue img cx cy bg wa wb wc j i) else Fin 0)"

definition weightedSum ::
    "Image \<Rightarrow> real \<Rightarrow> real \<Rightarrow> Box2I \<Rightarrow> dbl \<Rightarrow> dbl \<Rightarrow> dbl \<Rightarrow> dbl \<Rightarrow> (int \<Rightarrow> int \<Rightarrow> dbl \<Rightarrow> dbl) \<Rightarrow> dbl" where
  "weightedSum img cx cy box bg wa wb wc f =
     (\<Sum>i\<leftarrow>[getMinY box..getMaxY box]. \<Sum>j\<leftarrow>[getMinX box..getMaxX box].
        contribution img cx cy bg wa wb wc f j i)"

definition rowSum ::
    "Image \<Rightarrow> real \<Rightarrow> real \<Rightarrow> dbl \<Rightarrow> dbl \<Rightarrow> dbl \<Rightarrow> dbl \<Rightarrow> (int \<Rightarrow> int \<Rightarrow> dbl \<Rightarrow> dbl) \<Rightarrow> int list \<Rightarrow> int \<Rightarrow> dbl" where
  "rowSum img cx cy bg wa wb wc f js i = (\<Sum>j\<leftarrow>js. contribution img cx cy bg wa wb wc f j i)"

text \<open>
  What a pixel adds to the seven sums, from its weighted value \<open>v\<close>: \<^verbatim>\<open>ymod\<close>,
  \<^verbatim>\<open>ymod * j\<close>, \<^verbatim>\<open>ymod * i\<close>, \<^verbatim>\<open>x2 * ymod\<close>, \<^verbatim>\<open>xy * ymod\<close>, \<^verbatim>\<open>y2 * ymod\<close> and
  \<^verbatim>\<open>expon * expon * ymod\<close>, each a single-precision product.
\<close>

definition timesColumn :: "int \<Rightarrow> int \<Rightarrow> dbl \<Rightarrow> dbl" where
  "timesColumn j i v = to_float (v * to_float (Fin (of_int j)))"

definition timesRow :: "int \<Rightarrow> int \<Rightarrow> dbl \<Rightarrow> dbl" where
  "timesRow j i v = to_float (v * to_float (Fin (of_int i)))"

definition timesXX :: "real \<Rightarrow> real \<Rightarrow> int \<Rightarrow> int \<Rightarrow> dbl \<Rightarrow> dbl" where
  "timesXX cx cy j i v = to_float (to_float (offset cx j * offset cx j) * v)"

definition timesXY :: "real \<Rightarrow> real \<Rightarrow> int \<Rightarrow> int \<Rightarrow> dbl \<Rightarrow> dbl" where
  "timesXY cx cy j i v = to_float (to_float (offset cx j * offset cy i) * v)"

definition timesYY :: "real \<Rightarrow> real \<Rightarrow> int \<Rightarrow> int \<Rightarrow> dbl \<Rightarrow> dbl" where
  "timesYY cx cy j i v = to_float (to_float (offset cy i * offset cy i) * v)"

definition timesQQ :: "real \<Rightarrow> real \<Rightarrow> dbl \<Rightarrow> dbl \<Rightarrow> dbl \<Rightarrow> int \<Rightarrow> int \<Rightarrow> dbl \<Rightarrow> dbl" where
  "timesQQ cx cy wa wb wc j i v =
     to_float (to_float (exponent cx cy wa wb wc j i * exponent cx cy wa wb wc j i) * v)"

text \<open>
  The first moment as the specification words it, relative to the centre: the weighted
  value times \<^verbatim>\<open>x\<close>.
\<close>

definition timesX :: "real \<Rightarrow> int \<Rightarrow> int \<Rightarrow> dbl \<Rightarrow> dbl" where
  "timesX cx j i v = to_float (v * offset cx j)"

text \<open>
  The numbers with an exact single-precision representation, written with their digits
  \<open>m\<close> and the exponent \<open>z\<close> of the last one.
\<close>

definition isFloat :: "real \<Rightarrow> bool" where
  "isFloat r = (\<exists>m z. \<bar>m\<bar> < 2 ^ 24 \<and> - 149 \<le> z \<and> z \<le> 104 \<and> r = of_int m * 2 powr of_int z)"


text \<open>Moments with the given components.\<close>

definition moms :: "dbl \<Rightarrow> dbl \<Rightarrow> dbl \<Rightarrow> dbl \<Rightarrow> dbl \<Rightarrow> dbl \<Rightarrow> dbl \<Rightarrow> moments" where
  "moms s sx sy sxx sxy syy s4 =
     \<lparr>sum_m = s, sumx = sx, sumy = sy, sumxx = sxx, sumxy = sxy, sumyy = syy, sums4 = s4\<rparr>"

text \<open>Moments that are all finite.\<close>

definition finM :: "real \<Rightarrow> real \<Rightarrow> real \<Rightarrow> real \<Rightarrow> real \<Rightarrow> real \<Rightarrow> real \<Rightarrow> moments" where
  "finM s sx sy sxx sxy syy s4 =
     \<lparr>sum_m = Fin s, sumx = Fin sx, sumy = Fin sy, sumxx = Fin sxx, sumxy = Fin sxy,
      sumyy = Fin syy, sums4 = Fin s4\<rparr>"


section \<open>Concrete measurements\<close>

text \<open>
  A \<open>5 \<times> 5\<close> masked image: four pixels of value \<open>1\<close> around the centre
  \<open>(1/2, 1/2)\<close>, one pixel of value \<open>-4\<close> in the far corner, and an infinite variance
  everywhere.  With the first weights \<open>(2/3, 0, 2/3)\<close> the corner pixel is beyond the
  cutoff.
\<close>

definition quadPixels :: "int \<Rightarrow> int \<Rightarrow> real" where
  "quadPixels j i =
     (if (j = 0 \<or> j = 1) \<and> (i = 0 \<or> i = 1) then 1 else if j = 4 \<and> i = 4 then - 4 else 0)"

definition quadImage :: Image where
  "quadImage = \<lparr>getWidth = 5, getHeight = 5, getX0 = 0, getY0 = 0, pixelT = FloatPixel,
                 pixel = (\<lambda>j i. Fin (quadPixels j i)), variancePlane = Some (\<lambda>j i. PInf)\<rparr>"

definition wholeQuad :: Box2I where
  "wholeQuad = \<lparr>getMinX = 0, getMinY = 0, getMaxX = 4, getMaxY = 4\<rparr>"



text \<open>
  For the weights \<open>(a, 0, a)\<close>, each of the four pixels around the centre has the
  exponent \<open>a / 2\<close>, rounded: its weight, which is its weighted value, and what it adds
  to \<^verbatim>\<open>sums4\<close>.
\<close>

definition quadWeight :: "real \<Rightarrow> real" where
  "quadWeight a = float_round (exp (- (float_round (a / 2) / 2)))"

definition quadFourth :: "real \<Rightarrow> real" where
  "quadFourth a =
     float_round (float_round (float_round (a / 2) * float_round (a / 2)) * quadWeight a)"





text \<open>
  An image of a single pixel of value \<open>v\<close> without variance, measured at the centre
  \<open>(1/2, 1/2)\<close> with the default configuration: the flat image for \<open>v = 0\<close>, the lit
  one for \<open>v = 1\<close>.
\<close>

definition dotImage :: "real \<Rightarrow> Image" where
  "dotImage v = \<lparr>getWidth = 1, getHeight = 1, getX0 = 0, getY0 = 0, pixelT = FloatPixel,
                  pixel = (\<lambda>j i. Fin v), variancePlane = None\<rparr>"

definition dotBox :: Box2I where
  "dotBox = \<lparr>getMinX = 0, getMinY = 0, getMaxX = 0, getMaxY = 0\<rparr>"

definition dotArgs :: "real \<Rightarrow> amArgs" where
  "dotArgs v = \<lparr>mimage = dotImage v, bkgd = Fin 0, xcen = 1 / 2, ycen = 1 / 2, shiftmax = Fin 2,
                 maxIter = 100, tol1 = Fin (1 / 100000), tol2 = Fin (1 / 10000), negative = False\<rparr>"

definition stdControl :: "int \<Rightarrow> SdssShapeControl" where
  "stdControl n = \<lparr>background = Fin 0, maxIter_c = n, maxShift = Fin 0, tol1_c = Fin (1 / 100000),
                    tol2_c = Fin (1 / 10000), doMeasurePsf = False\<rparr>"

text \<open>The locals when its loop is left, and the result for \<open>v = 1\<close>.\<close>

definition dotState :: "real \<Rightarrow> amState" where
  "dotState v =
     \<lparr>I0 = Fin (v * quadWeight (2 / 3) / (pi * sqrt (9 / 4))),
      mom = finM (v * quadWeight (2 / 3)) 0 0 (v * quadWeight (2 / 3) / 4)
              (v * quadWeight (2 / 3) / 4) (v * quadWeight (2 / 3) / 4) (v * quadFourth (2 / 3)),
      sigma11W = Fin (3 / 2), sigma12W = Fin 0, sigma22W = Fin (3 / 2),
      w11 = Fin (2 / 3), w12 = Fin 0, w22 = Fin (2 / 3),
      e1_old = Fin (if 0 < v then 0 else 1000000), e2_old = Fin (if 0 < v then 1 else 1000000),
      sigma11_ow_old = Fin (if 0 < v then 1 / 4 else 1000000),
      interpflag = False, bbox = dotBox, iter = 0,
      shape = (if 0 < v then newSdssShapeResult\<lparr>x := Fin 0, y := Fin 0\<rparr> else newSdssShapeResult)
                \<lparr>flags := (\<lambda>f. f = UNWEIGHTED)\<rparr>\<rparr>"

definition dotResult :: SdssShapeResult where
  "dotResult = newSdssShapeResult\<lparr>x := Fin 0, y := Fin 0, xx := Fin (1 / 4), yy := Fin (1 / 4),
     xy := Fin (1 / 4), flags := (\<lambda>f. f = UNWEIGHTED \<or> f = FAILURE)\<rparr>"

text \<open>
  For the flux at fixed moments: the same pixel with a variance of \<open>4\<close>, and the round
  shape \<open>(1, 1, 0)\<close>.
\<close>

definition maskedDot :: Image where
  "maskedDot = (dotImage 1)\<lparr>variancePlane := Some (\<lambda>j i. Fin 4)\<rparr>"

definition unitShape :: Quadrupole where
  "unitShape = \<lparr>getIxx = Fin 1, getIyy = Fin 1, getIxy = Fin 0\<rparr>"



section \<open>Arithmetic of the special values\<close>

lemma isnan_simps [simp]:
  "isnan NaN" "\<not> isnan (Fin a)" "\<not> isnan PInf" "\<not> isnan NInf"
  by (simp_all add: isnan_def)

lemma minus_Fin [simp]: "Fin a - Fin b = Fin (a - b)"
  by (simp add: minus_dbl_def)

lemma le_Fin [simp]: "Fin a \<le> Fin b \<longleftrightarrow> a \<le> b"
  by (auto simp: less_eq_dbl_def)

lemma less_NaN [simp]: "\<not> v < NaN"
  by (cases v) simp_all

lemma le_NaN [simp]: "\<not> NaN \<le> v" "\<not> v \<le> NaN"
  by (simp_all add: less_eq_dbl_def)

lemma div_NaN [simp]: "v / NaN = NaN"
  by (cases v) simp_all


lemma add_Fin_zero [simp]: "v + Fin 0 = v" "Fin 0 + v = v"
  by (cases v; simp)+

lemma zero_dbl [simp]: "(0 :: dbl) = Fin 0"
  by (simp add: zero_dbl_def)

section \<open>Rounding to single precision\<close>

lemma round_even_of_int [simp]: "round_even (of_int n) = n"
  by (simp add: round_even_def)

lemma round_even_ge: "of_int n \<le> r \<Longrightarrow> n \<le> round_even r"
proof -
  assume "of_int n \<le> r"
  then have "n \<le> \<lfloor>r\<rfloor>" by (simp add: le_floor_iff)
  then show ?thesis by (auto simp: round_even_def Let_def)
qed

lemma round_even_le: "r \<le> of_int n \<Longrightarrow> round_even r \<le> n"
proof (cases "r = of_int n")
  case True
  then show ?thesis by simp
next
  case False
  assume "r \<le> of_int n"
  with False have "r < of_int n" by simp
  then have "\<lfloor>r\<rfloor> < n" by (simp add: floor_less_iff)
  then show ?thesis by (auto simp: round_even_def Let_def)
qed

lemma floor_log_bounds:
  assumes "r \<noteq> 0"
  shows "2 powr of_int \<lfloor>log 2 \<bar>r\<bar>\<rfloor> \<le> \<bar>r\<bar>" "\<bar>r\<bar> < 2 powr of_int (\<lfloor>log 2 \<bar>r\<bar>\<rfloor> + 1)"
proof -
  have pos: "0 < \<bar>r\<bar>" using assms by simp
  have "of_int \<lfloor>log 2 \<bar>r\<bar>\<rfloor> \<le> log 2 \<bar>r\<bar>" by simp
  then have "2 powr of_int \<lfloor>log 2 \<bar>r\<bar>\<rfloor> \<le> 2 powr log 2 \<bar>r\<bar>"
    by (simp only: powr_le_cancel_iff [of 2] one_less_numeral_iff semiring_norm)
  then show "2 powr of_int \<lfloor>log 2 \<bar>r\<bar>\<rfloor> \<le> \<bar>r\<bar>" using pos by simp
  have "log 2 \<bar>r\<bar> < of_int (\<lfloor>log 2 \<bar>r\<bar>\<rfloor> + 1)" by linarith
  then have "2 powr log 2 \<bar>r\<bar> < 2 powr of_int (\<lfloor>log 2 \<bar>r\<bar>\<rfloor> + 1)"
    by (simp only: powr_less_cancel_iff [of 2] one_less_numeral_iff semiring_norm)
  then show "\<bar>r\<bar> < 2 powr of_int (\<lfloor>log 2 \<bar>r\<bar>\<rfloor> + 1)" using pos by simp
qed

text \<open>The binade of a value: below it is the value, or the value is subnormal.\<close>

lemma ulp_exponent_cases:
  assumes "r \<noteq> 0"
  shows "- 149 \<le> ulp_exponent r"
    and "\<bar>r\<bar> < 2 powr of_int (ulp_exponent r + 24)"
    and "2 powr of_int (ulp_exponent r + 23) \<le> \<bar>r\<bar> \<or> ulp_exponent r = - 149"
proof -
  show "- 149 \<le> ulp_exponent r" by (simp add: ulp_exponent_def)
  have "\<lfloor>log 2 \<bar>r\<bar>\<rfloor> + 1 \<le> ulp_exponent r + 24" by (simp add: ulp_exponent_def)
  then have "2 powr of_int (\<lfloor>log 2 \<bar>r\<bar>\<rfloor> + 1) \<le> (2::real) powr of_int (ulp_exponent r + 24)"
    by (simp only: powr_le_cancel_iff [of 2] one_less_numeral_iff semiring_norm of_int_le_iff)
  with floor_log_bounds(2) [OF assms] show "\<bar>r\<bar> < 2 powr of_int (ulp_exponent r + 24)" by linarith
  show "2 powr of_int (ulp_exponent r + 23) \<le> \<bar>r\<bar> \<or> ulp_exponent r = - 149"
  proof (cases "- 126 \<le> \<lfloor>log 2 \<bar>r\<bar>\<rfloor>")
    case True
    then have "ulp_exponent r + 23 = \<lfloor>log 2 \<bar>r\<bar>\<rfloor>" by (simp add: ulp_exponent_def)
    with floor_log_bounds(1) [OF assms] show ?thesis by simp
  next
    case False
    then show ?thesis by (simp add: ulp_exponent_def)
  qed
qed

lemma powr_shift:
  "(2::real) powr of_int (z + 24) = 2 ^ 24 * 2 powr of_int z"
  "(2::real) powr of_int (z + 23) = 2 ^ 23 * 2 powr of_int z"
  by (simp_all add: powr_add)

lemma two_powr_nat:
  assumes "0 \<le> k"
  shows "(2::real) powr of_int k = 2 ^ nat k"
proof -
  have "real_of_int k = real (nat k)" using assms by simp
  then show ?thesis by (simp only: powr_realpow zero_less_numeral)
qed

text \<open>A representable value on the grid of a coarser or equal last place is an integer
  multiple of it.\<close>

lemma grid_multiple:
  assumes "e \<le> z"
  shows "of_int m * 2 powr of_int z / 2 powr of_int e = (of_int (m * 2 ^ nat (z - e)) :: real)"
proof -
  have "(2::real) powr of_int z = 2 powr of_int (z - e) * 2 powr of_int e"
    by (simp add: powr_add [symmetric])
  then have "of_int m * 2 powr of_int z / 2 powr of_int e = of_int m * (2::real) powr of_int (z - e)"
    by simp
  also have "\<dots> = of_int (m * 2 ^ nat (z - e))"
  proof -
    have "0 \<le> z - e" using assms by simp
    from two_powr_nat [OF this] show ?thesis by simp
  qed
  finally show ?thesis .
qed

lemma float_round_lower:
  assumes c: "isFloat c" and le: "c \<le> r"
  shows "c \<le> float_round r"
proof (cases "r = 0")
  case True
  with le show ?thesis by (simp add: float_round_def)
next
  case False
  define e where "e = ulp_exponent r"
  define u where "u = (2::real) powr of_int e"
  have u: "0 < u" by (simp add: u_def)
  have fr: "float_round r = of_int (round_even (r / u)) * u"
    using False by (simp add: float_round_def e_def u_def)
  from c obtain m z where m: "\<bar>m\<bar> < 2 ^ 24" and z: "- 149 \<le> z" and cz: "c = of_int m * 2 powr of_int z"
    by (auto simp: isFloat_def)
  show ?thesis
  proof (cases "e \<le> z")
    case True
    define N where "N = m * 2 ^ nat (z - e)"
    have cN: "c / u = of_int N"
      unfolding cz u_def N_def by (rule grid_multiple [OF True])
    have "of_int N \<le> r / u"
      using le u by (simp add: cN [symmetric] divide_right_mono)
    then have "N \<le> round_even (r / u)" by (rule round_even_ge)
    then have "of_int N * u \<le> of_int (round_even (r / u)) * u"
      using u by simp
    moreover have "c = of_int N * u" using cN u by (simp add: field_simps)
    ultimately show ?thesis by (simp add: fr)
  next
    case False
    then have ze: "z + 1 \<le> e" by simp
    with z have ne: "e \<noteq> - 149" by linarith
    have "\<bar>c\<bar> = \<bar>of_int m\<bar> * 2 powr of_int z" by (simp add: cz abs_mult)
    also have "\<dots> < 2 ^ 24 * 2 powr of_int z"
    proof -
      have "\<bar>of_int m :: real\<bar> < 2 ^ 24" using m by (metis of_int_abs of_int_less_numeral_power_cancel_iff)
      then show ?thesis by simp
    qed
    also have "\<dots> = 2 powr of_int (z + 24)"
      by (simp only: powr_shift)
    also have "\<dots> \<le> 2 powr of_int (e + 23)"
      using ze by (simp only: powr_le_cancel_iff [of 2] one_less_numeral_iff semiring_norm of_int_le_iff)
    finally have cP: "\<bar>c\<bar> < 2 powr of_int (e + 23)" .
    from ulp_exponent_cases(3) [OF \<open>r \<noteq> 0\<close>] ne have P: "2 powr of_int (e + 23) \<le> \<bar>r\<bar>"
      by (simp add: e_def)
    have rpos: "0 < r"
    proof (rule ccontr)
      assume "\<not> 0 < r"
      then have "\<bar>r\<bar> \<le> \<bar>c\<bar>" using le by simp
      with cP P show False by linarith
    qed
    have "of_int (2 ^ 23) \<le> r / u"
    proof -
      have "2 powr of_int (e + 23) = u * 2 ^ 23"
        unfolding u_def powr_shift by simp
      with P rpos have "u * 2 ^ 23 \<le> r" by simp
      then show ?thesis using u by (simp add: field_simps)
    qed
    then have "2 ^ 23 \<le> round_even (r / u)" by (rule round_even_ge)
    then have "(2 ^ 23 :: real) \<le> of_int (round_even (r / u))"
      by (metis of_int_le_iff of_int_numeral of_int_power)
    then have "2 ^ 23 * u \<le> of_int (round_even (r / u)) * u"
      using u by simp
    moreover have "2 powr of_int (e + 23) = 2 ^ 23 * u"
      unfolding u_def powr_shift by simp
    ultimately show ?thesis using cP by (simp add: fr)
  qed
qed

lemma float_round_upper:
  assumes c: "isFloat c" and le: "r \<le> c"
  shows "float_round r \<le> c"
proof (cases "r = 0")
  case True
  with le show ?thesis by (simp add: float_round_def)
next
  case False
  define e where "e = ulp_exponent r"
  define u where "u = (2::real) powr of_int e"
  have u: "0 < u" by (simp add: u_def)
  have fr: "float_round r = of_int (round_even (r / u)) * u"
    using False by (simp add: float_round_def e_def u_def)
  from c obtain m z where m: "\<bar>m\<bar> < 2 ^ 24" and z: "- 149 \<le> z" and cz: "c = of_int m * 2 powr of_int z"
    by (auto simp: isFloat_def)
  show ?thesis
  proof (cases "e \<le> z")
    case True
    define N where "N = m * 2 ^ nat (z - e)"
    have cN: "c / u = of_int N"
      unfolding cz u_def N_def by (rule grid_multiple [OF True])
    have "r / u \<le> of_int N"
      using le u by (simp add: cN [symmetric] divide_right_mono)
    then have "round_even (r / u) \<le> N" by (rule round_even_le)
    then have "of_int (round_even (r / u)) * u \<le> of_int N * u"
      using u by simp
    moreover have "c = of_int N * u" using cN u by (simp add: field_simps)
    ultimately show ?thesis by (simp add: fr)
  next
    case False
    then have ze: "z + 1 \<le> e" by simp
    with z have ne: "e \<noteq> - 149" by linarith
    have "\<bar>c\<bar> = \<bar>of_int m\<bar> * 2 powr of_int z" by (simp add: cz abs_mult)
    also have "\<dots> < 2 ^ 24 * 2 powr of_int z"
    proof -
      have "\<bar>of_int m :: real\<bar> < 2 ^ 24" using m by (metis of_int_abs of_int_less_numeral_power_cancel_iff)
      then show ?thesis by simp
    qed
    also have "\<dots> = 2 powr of_int (z + 24)"
      by (simp only: powr_shift)
    also have "\<dots> \<le> 2 powr of_int (e + 23)"
      using ze by (simp only: powr_le_cancel_iff [of 2] one_less_numeral_iff semiring_norm of_int_le_iff)
    finally have cP: "\<bar>c\<bar> < 2 powr of_int (e + 23)" .
    from ulp_exponent_cases(3) [OF \<open>r \<noteq> 0\<close>] ne have P: "2 powr of_int (e + 23) \<le> \<bar>r\<bar>"
      by (simp add: e_def)
    have rneg: "r < 0"
    proof (rule ccontr)
      assume "\<not> r < 0"
      then have "\<bar>r\<bar> \<le> \<bar>c\<bar>" using le by simp
      with cP P show False by linarith
    qed
    have "r / u \<le> of_int (- (2 ^ 23))"
    proof -
      have "2 powr of_int (e + 23) = u * 2 ^ 23"
        unfolding u_def powr_shift by simp
      with P rneg have "r \<le> - (u * 2 ^ 23)" by simp
      then show ?thesis using u by (simp add: field_simps)
    qed
    then have "round_even (r / u) \<le> - (2 ^ 23)" by (rule round_even_le)
    then have "of_int (round_even (r / u)) \<le> - (2 ^ 23 :: real)"
      by (metis of_int_le_iff of_int_minus of_int_numeral of_int_power)
    then have "of_int (round_even (r / u)) * u \<le> - (2 ^ 23) * u"
      using u by (intro mult_right_mono) simp_all
    moreover have "2 powr of_int (e + 23) = 2 ^ 23 * u"
      unfolding u_def powr_shift by simp
    ultimately show ?thesis using cP by (simp add: fr)
  qed
qed

lemma float_round_exact: "isFloat r \<Longrightarrow> float_round r = r"
  using float_round_lower [of r r] float_round_upper [of r r] by simp


lemma isFloat_dyadic:
  assumes "\<bar>m\<bar> < 2 ^ 24" "k \<le> 149"
  shows "isFloat (of_int m / 2 ^ k)"
proof -
  have "(2::real) powr of_int (- int k) = 1 / 2 ^ k"
    by (simp add: powr_minus powr_realpow inverse_eq_divide)
  then have "of_int m / 2 ^ k = of_int m * (2::real) powr of_int (- int k)"
    by simp
  moreover have "- 149 \<le> - int k" "- int k \<le> 104" using assms(2) by simp_all
  ultimately show ?thesis
    unfolding isFloat_def using assms(1) by blast
qed

lemma isFloat_int: "\<bar>m\<bar> < 2 ^ 24 \<Longrightarrow> isFloat (of_int m)"
  using isFloat_dyadic [of m 0] by simp

lemma isFloat_minus: "isFloat r \<Longrightarrow> isFloat (- r)"
proof -
  assume "isFloat r"
  then obtain m z where "\<bar>m\<bar> < 2 ^ 24" "- 149 \<le> z" "z \<le> 104" "r = of_int m * 2 powr of_int z"
    by (auto simp: isFloat_def)
  then have "\<bar>- m\<bar> < 2 ^ 24" "- r = of_int (- m) * 2 powr of_int z" by simp_all
  with \<open>- 149 \<le> z\<close> \<open>z \<le> 104\<close> show ?thesis unfolding isFloat_def by blast
qed

lemma isFloat_bound:
  assumes "isFloat c"
  shows "\<bar>c\<bar> < 2 ^ 128"
proof -
  from assms obtain m z where m: "\<bar>m\<bar> < 2 ^ 24" and z: "z \<le> 104" and c: "c = of_int m * 2 powr of_int z"
    by (auto simp: isFloat_def)
  have m': "\<bar>of_int m :: real\<bar> < 2 ^ 24"
    using m by (metis of_int_abs of_int_less_numeral_power_cancel_iff)
  have "(2::real) powr of_int z \<le> 2 powr of_int 104"
    using z by (simp only: powr_le_cancel_iff [of 2] one_less_numeral_iff semiring_norm of_int_le_iff)
  also have "\<dots> = 2 ^ 104" by simp
  finally have z': "(2::real) powr of_int z \<le> 2 ^ 104" .
  have "\<bar>c\<bar> = \<bar>of_int m\<bar> * 2 powr of_int z" by (simp add: c abs_mult)
  also have "\<dots> < 2 ^ 24 * 2 powr of_int z" using m' by simp
  also have "\<dots> \<le> 2 ^ 24 * 2 ^ 104" using z' by simp
  also have "\<dots> = (2 ^ 128 :: real)" by simp
  finally show ?thesis .
qed

lemma isFloat_scale:
  assumes r: "isFloat r" and k: "k \<le> 20" and big: "1 / 2 ^ 100 \<le> \<bar>r\<bar>"
  shows "isFloat (r / 2 ^ k)"
proof -
  from r obtain m z where m: "\<bar>m\<bar> < 2 ^ 24" and z: "- 149 \<le> z" "z \<le> 104"
      and c: "r = of_int m * 2 powr of_int z"
    by (auto simp: isFloat_def)
  have m': "\<bar>of_int m :: real\<bar> < 2 ^ 24"
    using m by (metis of_int_abs of_int_less_numeral_power_cancel_iff)
  have "- 124 \<le> z"
  proof (rule ccontr)
    assume "\<not> - 124 \<le> z"
    then have "z \<le> - 125" by simp
    then have "(2::real) powr of_int z \<le> 2 powr of_int (- 125)"
      by (simp only: powr_le_cancel_iff [of 2] one_less_numeral_iff semiring_norm of_int_le_iff)
    also have "\<dots> = 1 / 2 ^ 125" by (simp add: powr_minus inverse_eq_divide)
    finally have z': "(2::real) powr of_int z \<le> 1 / 2 ^ 125" .
    have "\<bar>r\<bar> = \<bar>of_int m\<bar> * 2 powr of_int z" by (simp add: c abs_mult)
    also have "\<dots> \<le> 2 ^ 24 * 2 powr of_int z" using m' by simp
    also have "\<dots> \<le> 2 ^ 24 * (1 / 2 ^ 125)" using z' by simp
    also have "\<dots> < 1 / 2 ^ 100" by simp
    finally show False using big by simp
  qed
  then have z2: "- 149 \<le> z - int k" "z - int k \<le> 104" using k z by simp_all
  have "(2::real) powr of_int (z - int k) = 2 powr of_int z / 2 ^ k"
    by (simp add: powr_diff powr_realpow)
  then have "r / 2 ^ k = of_int m * 2 powr of_int (z - int k)"
    by (simp add: c)
  with m z2 show ?thesis unfolding isFloat_def by blast
qed

lemma float_round_abs_le:
  assumes "isFloat c" "\<bar>r\<bar> \<le> c"
  shows "\<bar>float_round r\<bar> \<le> c"
proof -
  have "float_round r \<le> c" using assms by (intro float_round_upper) auto
  moreover have "- c \<le> float_round r"
    using assms by (intro float_round_lower isFloat_minus) auto
  ultimately show ?thesis by simp
qed

lemma float_round_isFloat:
  assumes "\<bar>r\<bar> < 2 ^ 127"
  shows "isFloat (float_round r)"
proof (cases "r = 0")
  case True
  then show ?thesis using isFloat_int [of 0] by (simp add: float_round_def)
next
  case False
  define e where "e = ulp_exponent r"
  define u where "u = (2::real) powr of_int e"
  define N where "N = round_even (r / u)"
  have u: "0 < u" by (simp add: u_def)
  have fr: "float_round r = of_int N * u"
    using False by (simp add: float_round_def e_def u_def N_def)
  have e149: "- 149 \<le> e" using ulp_exponent_cases(1) [OF False] by (simp add: e_def)
  have "\<bar>r\<bar> < 2 ^ 24 * u"
    using ulp_exponent_cases(2) [OF False] unfolding e_def [symmetric] powr_shift u_def .
  then have "\<bar>r\<bar> / u < 2 ^ 24" using u by (simp add: field_simps)
  moreover have "\<bar>r / u\<bar> = \<bar>r\<bar> / u" using u by (simp add: abs_divide)
  ultimately have "\<bar>r / u\<bar> < 2 ^ 24" by (simp only:)
  then have "r / u \<le> 2 ^ 24" "- (2 ^ 24) \<le> r / u" by linarith+
  then have b: "r / u \<le> of_int (2 ^ 24)" "of_int (- (2 ^ 24)) \<le> r / u" by simp_all
  have N: "N \<le> 2 ^ 24" "- (2 ^ 24) \<le> N"
    unfolding N_def using round_even_le [OF b(1)] round_even_ge [OF b(2)] by simp_all
  have e103: "e \<le> 103"
  proof (rule ccontr)
    assume "\<not> e \<le> 103"
    then have big: "104 \<le> e" by simp
    then have "e \<noteq> - 149" by simp
    with ulp_exponent_cases(3) [OF False] have "2 powr of_int (e + 23) \<le> \<bar>r\<bar>"
      by (simp add: e_def)
    moreover have "(2::real) powr of_int 127 \<le> 2 powr of_int (e + 23)"
      using big by (simp only: powr_le_cancel_iff [of 2] one_less_numeral_iff semiring_norm of_int_le_iff)
    ultimately show False using assms by simp
  qed
  show ?thesis
  proof (cases "\<bar>N\<bar> < 2 ^ 24")
    case True
    with e149 e103 fr show ?thesis unfolding isFloat_def u_def
      by (intro exI [of _ N] exI [of _ e]) simp
  next
    case False
    with N have "N = 2 ^ 24 \<or> N = - (2 ^ 24)" by auto
    moreover have "(2::real) powr of_int (e + 1) = 2 * u" by (simp add: u_def powr_add)
    ultimately have "float_round r = of_int (N div 2) * 2 powr of_int (e + 1)" "\<bar>N div 2\<bar> < 2 ^ 24"
      unfolding fr by auto
    with e149 e103 show ?thesis unfolding isFloat_def
      by (intro exI [of _ "N div 2"] exI [of _ "e + 1"]) simp
  qed
qed

lemma to_float_exact: "isFloat r \<Longrightarrow> to_float (Fin r) = Fin r"
  using isFloat_bound [of r] by (simp add: float_round_exact Let_def)

lemma to_float_bounded:
  assumes "isFloat c" "\<bar>r\<bar> \<le> c"
  shows "to_float (Fin r) = Fin (float_round r)"
  using float_round_abs_le [OF assms] isFloat_bound [OF assms(1)] by (simp add: Let_def)

declare to_float.simps(1) [simp del]

lemma isFloat_numerals:
  "isFloat 0" "isFloat 1" "isFloat (- 1)" "isFloat (1 / 2)" "isFloat (- (1 / 2))"
  "isFloat (1 / 4)" "isFloat (- (1 / 4))"
  "(numeral n :: int) < 2 ^ 24 \<Longrightarrow> isFloat (numeral n)"
  "(numeral n :: int) < 2 ^ 24 \<Longrightarrow> isFloat (- numeral n)"
  "(numeral n :: int) < 2 ^ 24 \<Longrightarrow> isFloat (numeral n / 2)"
  "(numeral n :: int) < 2 ^ 24 \<Longrightarrow> isFloat (- (numeral n / 2))"
  "(numeral n :: int) < 2 ^ 24 \<Longrightarrow> isFloat (numeral n / 4)"
  "(numeral n :: int) < 2 ^ 24 \<Longrightarrow> isFloat (- (numeral n / 4))"
  using isFloat_dyadic [of 0 0] isFloat_dyadic [of 1 0] isFloat_dyadic [of "- 1" 0]
    isFloat_dyadic [of 1 1] isFloat_dyadic [of "- 1" 1] isFloat_dyadic [of 1 2]
    isFloat_dyadic [of "- 1" 2] isFloat_dyadic [of "numeral n" 0]
    isFloat_dyadic [of "- numeral n" 0] isFloat_dyadic [of "numeral n" 1]
    isFloat_dyadic [of "- numeral n" 1] isFloat_dyadic [of "numeral n" 2]
    isFloat_dyadic [of "- numeral n" 2]
  by simp_all

lemma to_float_numerals [simp]:
  "to_float (Fin 0) = Fin 0" "to_float (Fin 1) = Fin 1" "to_float (Fin (- 1)) = Fin (- 1)"
  "to_float (Fin (1 / 2)) = Fin (1 / 2)" "to_float (Fin (- (1 / 2))) = Fin (- (1 / 2))"
  "to_float (Fin (1 / 4)) = Fin (1 / 4)" "to_float (Fin (- (1 / 4))) = Fin (- (1 / 4))"
  "(numeral n :: int) < 2 ^ 24 \<Longrightarrow> to_float (Fin (numeral n)) = Fin (numeral n)"
  "(numeral n :: int) < 2 ^ 24 \<Longrightarrow> to_float (Fin (- numeral n)) = Fin (- numeral n)"
  "(numeral n :: int) < 2 ^ 24 \<Longrightarrow> to_float (Fin (numeral n / 2)) = Fin (numeral n / 2)"
  "(numeral n :: int) < 2 ^ 24 \<Longrightarrow> to_float (Fin (- (numeral n / 2))) = Fin (- (numeral n / 2))"
  "(numeral n :: int) < 2 ^ 24 \<Longrightarrow> to_float (Fin (numeral n / 4)) = Fin (numeral n / 4)"
  "(numeral n :: int) < 2 ^ 24 \<Longrightarrow> to_float (Fin (- (numeral n / 4))) = Fin (- (numeral n / 4))"
  by (simp_all only: to_float_exact isFloat_numerals)

section \<open>The weight-matrix solver\<close>




lemma getWeights_Fin:
  assumes "p * r - q * q = D" and "epsilon_float \<le> D"
  shows "getWeights (Fin p) (Fin q) (Fin r) = ((True, Fin D), Fin (r / D), Fin (- q / D), Fin (p / D))"
proof -
  have "0 < epsilon_float" by (simp add: epsilon_float_def)
  then have "D \<noteq> 0" using assms(2) by linarith
  then show ?thesis
    using assms by (simp add: getWeights_def Let_def)
qed

lemma getWeights_Fin_fails:
  assumes "p * r - q * q < epsilon_float"
  shows "getWeights (Fin p) (Fin q) (Fin r) = ((False, Fin (p * r - q * q)), NaN, NaN, NaN)"
  using assms by (simp add: getWeights_def Let_def)

text \<open>
  Claim C9, as amended.  In exact arithmetic, for every finite covariance whose
  determinant \<open>d\<close> lies between the single-precision epsilon and its reciprocal, the
  solver succeeds, and applied to its own output it succeeds again and returns the
  covariance (with the determinant \<open>1 / d\<close>); for a determinant below epsilon, the
  singular covariance included, it reports failure and returns not-a-number in the
  three weights.
\<close>

theorem getWeights_roundtrip:
  "(epsilon_float \<le> a * c - b * b \<and> a * c - b * b \<le> 1 / epsilon_float \<longrightarrow>
      getWeights (Fin a) (Fin b) (Fin c) =
        ((True, Fin (a * c - b * b)), Fin (c / (a * c - b * b)), Fin (- b / (a * c - b * b)),
         Fin (a / (a * c - b * b))) \<and>
      getWeights (Fin (c / (a * c - b * b))) (Fin (- b / (a * c - b * b)))
          (Fin (a / (a * c - b * b))) =
        ((True, Fin (1 / (a * c - b * b))), Fin a, Fin b, Fin c)) \<and>
   (a * c - b * b < epsilon_float \<longrightarrow>
      getWeights (Fin a) (Fin b) (Fin c) = ((False, Fin (a * c - b * b)), NaN, NaN, NaN))"
proof -
  define d where "d = a * c - b * b"
  have e: "0 < epsilon_float" by (simp add: epsilon_float_def)
  have second: "getWeights (Fin (c / d)) (Fin (- b / d)) (Fin (a / d)) = ((True, Fin (1 / d)), Fin a, Fin b, Fin c)"
    if lo: "epsilon_float \<le> d" and hi: "d \<le> 1 / epsilon_float"
  proof -
    have dpos: "0 < d" using e lo by linarith
    have det: "c / d * (a / d) - - b / d * (- b / d) = 1 / d"
    proof -
      have "c / d * (a / d) - - b / d * (- b / d) = (a * c - b * b) / (d * d)"
        by (simp add: diff_divide_distrib mult.commute)
      also have "\<dots> = 1 / d" using dpos by (simp add: d_def [symmetric])
      finally show ?thesis .
    qed
    have ge: "epsilon_float \<le> 1 / d"
      using hi dpos e by (simp add: field_simps)
    have "getWeights (Fin (c / d)) (Fin (- b / d)) (Fin (a / d)) =
        ((True, Fin (1 / d)), Fin (a / d / (1 / d)), Fin (- (- b / d) / (1 / d)), Fin (c / d / (1 / d)))"
      by (rule getWeights_Fin [OF det ge])
    then show ?thesis
      using dpos by simp
  qed
  have first: "getWeights (Fin a) (Fin b) (Fin c) = ((True, Fin d), Fin (c / d), Fin (- b / d), Fin (a / d))"
    if lo: "epsilon_float \<le> d"
    by (rule getWeights_Fin [OF d_def [symmetric] lo])
  have fail: "getWeights (Fin a) (Fin b) (Fin c) = ((False, Fin d), NaN, NaN, NaN)" if "d < epsilon_float"
    using that unfolding d_def by (rule getWeights_Fin_fails)
  show ?thesis
    using first second fail unfolding d_def by blast
qed

theorem getWeights_roundtrip_witness:
  "getWeights (Fin 2) (Fin 1) (Fin 3) = ((True, Fin 5), Fin (3 / 5), Fin (- 1 / 5), Fin (2 / 5)) \<and>
   getWeights (Fin (3 / 5)) (Fin (- 1 / 5)) (Fin (2 / 5)) = ((True, Fin (1 / 5)), Fin 2, Fin 1, Fin 3) \<and>
   getWeights (Fin 1) (Fin 1) (Fin 1) = ((False, Fin 0), NaN, NaN, NaN)"
  using getWeights_roundtrip [of 2 3 1] getWeights_roundtrip [of 1 1 1]
  by (simp add: epsilon_float_def)

text \<open>
  Claim C9 as stated fails for a large covariance: the determinant of \<open>diag(3000, 3000)\<close>
  is above epsilon, but that of its inverse is below it, and the second application
  fails.
\<close>

theorem getWeights_roundtrip_counterexample:
  "getWeights (Fin 3000) (Fin 0) (Fin 3000) =
     ((True, Fin 9000000), Fin (1 / 3000), Fin 0, Fin (1 / 3000)) \<and>
   getWeights (Fin (1 / 3000)) (Fin 0) (Fin (1 / 3000)) = ((False, Fin (1 / 9000000)), NaN, NaN, NaN)"
  by (simp add: getWeights_def epsilon_float_def)

section \<open>The accumulator in closed form\<close>

lemma momPixel_plain:
  "momPixel img cx cy bg False wa wb wc i (moms s sx sy sxx sxy syy s4) j =
     moms (s + contribution img cx cy bg wa wb wc (\<lambda>j i v. v) j i)
          (sx + contribution img cx cy bg wa wb wc timesColumn j i)
          (sy + contribution img cx cy bg wa wb wc timesRow j i)
          (sxx + contribution img cx cy bg wa wb wc (timesXX cx cy) j i)
          (sxy + contribution img cx cy bg wa wb wc (timesXY cx cy) j i)
          (syy + contribution img cx cy bg wa wb wc (timesYY cx cy) j i)
          (s4 + contribution img cx cy bg wa wb wc (timesQQ cx cy wa wb wc) j i)"
  by (simp add: momPixel_def accumulate_def moms_def contribution_def weightedValue_def
        exponent_def timesColumn_def timesRow_def timesXX_def timesXY_def timesYY_def
        timesQQ_def Let_def)

lemma momRow_plain:
  "foldl (momPixel img cx cy bg False wa wb wc i) (moms s sx sy sxx sxy syy s4) js =
     moms (s + rowSum img cx cy bg wa wb wc (\<lambda>j i v. v) js i)
          (sx + rowSum img cx cy bg wa wb wc timesColumn js i)
          (sy + rowSum img cx cy bg wa wb wc timesRow js i)
          (sxx + rowSum img cx cy bg wa wb wc (timesXX cx cy) js i)
          (sxy + rowSum img cx cy bg wa wb wc (timesXY cx cy) js i)
          (syy + rowSum img cx cy bg wa wb wc (timesYY cx cy) js i)
          (s4 + rowSum img cx cy bg wa wb wc (timesQQ cx cy wa wb wc) js i)"
proof (induction js arbitrary: s sx sy sxx sxy syy s4)
  case Nil
  show ?case by (simp add: rowSum_def)
next
  case (Cons j js)
  show ?case
    by (simp only: foldl_Cons momPixel_plain Cons.IH rowSum_def list.map sum_list.Cons add.assoc)
qed

lemma momRows_plain:
  "foldl (momRow img cx cy box bg False wa wb wc) (moms s sx sy sxx sxy syy s4) rows =
     moms (s + (\<Sum>i\<leftarrow>rows. rowSum img cx cy bg wa wb wc (\<lambda>j i v. v) [getMinX box..getMaxX box] i))
          (sx + (\<Sum>i\<leftarrow>rows. rowSum img cx cy bg wa wb wc timesColumn [getMinX box..getMaxX box] i))
          (sy + (\<Sum>i\<leftarrow>rows. rowSum img cx cy bg wa wb wc timesRow [getMinX box..getMaxX box] i))
          (sxx + (\<Sum>i\<leftarrow>rows. rowSum img cx cy bg wa wb wc (timesXX cx cy) [getMinX box..getMaxX box] i))
          (sxy + (\<Sum>i\<leftarrow>rows. rowSum img cx cy bg wa wb wc (timesXY cx cy) [getMinX box..getMaxX box] i))
          (syy + (\<Sum>i\<leftarrow>rows. rowSum img cx cy bg wa wb wc (timesYY cx cy) [getMinX box..getMaxX box] i))
          (s4 + (\<Sum>i\<leftarrow>rows. rowSum img cx cy bg wa wb wc (timesQQ cx cy wa wb wc) [getMinX box..getMaxX box] i))"
proof (induction rows arbitrary: s sx sy sxx sxy syy s4)
  case Nil
  show ?case by simp
next
  case (Cons i rows)
  show ?case
    by (simp only: foldl_Cons momRow_def momRow_plain Cons.IH [unfolded momRow_def] list.map
          sum_list.Cons add.assoc)
qed

lemma momLoop_plain:
  "momLoop img cx cy box bg False wa wb wc =
     moms (weightedSum img cx cy box bg wa wb wc (\<lambda>j i v. v))
          (weightedSum img cx cy box bg wa wb wc timesColumn)
          (weightedSum img cx cy box bg wa wb wc timesRow)
          (weightedSum img cx cy box bg wa wb wc (timesXX cx cy))
          (weightedSum img cx cy box bg wa wb wc (timesXY cx cy))
          (weightedSum img cx cy box bg wa wb wc (timesYY cx cy))
          (weightedSum img cx cy box bg wa wb wc (timesQQ cx cy wa wb wc))"
proof -
  have z: "zeroMoments = moms (Fin 0) (Fin 0) (Fin 0) (Fin 0) (Fin 0) (Fin 0) (Fin 0)"
    by (simp add: zeroMoments_def moms_def)
  show ?thesis
    unfolding momLoop_def z momRows_plain weightedSum_def rowSum_def by simp
qed

section \<open>Evaluation of the concrete measurements\<close>

lemma int_range: "0 \<le> (k::int) \<Longrightarrow> k \<le> 4 \<Longrightarrow> k = 0 \<or> k = 1 \<or> k = 2 \<or> k = 3 \<or> k = 4"
  by arith

lemma offset_half: "0 \<le> k \<Longrightarrow> k \<le> 4 \<Longrightarrow> offset (1 / 2) k = Fin (of_int k - 1 / 2)"
  using int_range [of k] by (auto simp: offset_def)

lemma quad_products:
  assumes "0 \<le> j" "j \<le> 4" "0 \<le> i" "i \<le> 4"
  shows "to_float (Fin ((of_int j - 1 / 2) * (of_int i - 1 / 2))) = Fin ((of_int j - 1 / 2) * (of_int i - 1 / 2))"
    and "to_float (Fin (2 * ((of_int j - 1 / 2) * (of_int i - 1 / 2)))) = Fin (2 * ((of_int j - 1 / 2) * (of_int i - 1 / 2)))"
    and "to_float (Fin (of_int j)) = Fin (of_int j)"
    and "\<bar>(of_int j - 1 / 2) * (of_int i - 1 / 2)\<bar> \<le> (16 :: real)"
  using int_range [OF assms(1,2)] int_range [OF assms(3,4)] by auto

text \<open>The weight at a finite exponent that is not negative.\<close>

lemma exp_weight:
  assumes "0 \<le> e"
  shows "to_float (dexp (Fin (- (1 / 2)) * Fin e)) = Fin (float_round (exp (- (e / 2))))"
    and "0 \<le> float_round (exp (- (e / 2)))" and "float_round (exp (- (e / 2))) \<le> 1"
    and "isFloat (float_round (exp (- (e / 2))))"
proof -
  have r: "0 \<le> exp (- (e / 2))" "exp (- (e / 2)) \<le> 1" using assms by simp_all
  then have a: "\<bar>exp (- (e / 2))\<bar> \<le> 1" by simp
  show "to_float (dexp (Fin (- (1 / 2)) * Fin e)) = Fin (float_round (exp (- (e / 2))))"
    using to_float_bounded [OF isFloat_numerals(2) a] by simp
  show "0 \<le> float_round (exp (- (e / 2)))"
    by (rule float_round_lower [OF isFloat_numerals(1) r(1)])
  show "float_round (exp (- (e / 2))) \<le> 1"
    by (rule float_round_upper [OF isFloat_numerals(2) r(2)])
  from a have "\<bar>exp (- (e / 2))\<bar> < 2 ^ 127" by (rule order.strict_trans1) simp
  then show "isFloat (float_round (exp (- (e / 2))))"
    by (rule float_round_isFloat)
qed

lemma exp_weight_pos:
  assumes "0 \<le> e" "e \<le> 2"
  shows "1 / 4 \<le> float_round (exp (- (e / 2)))"
proof -
  have "exp (e / 2) \<le> exp 1" using assms by simp
  also have "\<dots> \<le> 3" by (rule exp_le)
  finally have "exp (e / 2) \<le> 4" by simp
  then have "1 / 4 \<le> 1 / exp (e / 2)"
    by (simp add: field_simps)
  then have "1 / 4 \<le> exp (- (e / 2))" by (simp add: exp_minus inverse_eq_divide)
  then show ?thesis by (rule float_round_lower [OF isFloat_numerals(6)])
qed

lemma quadWeight_bounds:
  assumes "0 \<le> a" "a \<le> 4"
  shows "1 / 4 \<le> quadWeight a" "quadWeight a \<le> 1" "isFloat (quadWeight a)"
    "0 \<le> float_round (a / 2)" "float_round (a / 2) \<le> 2"
proof -
  show e0: "0 \<le> float_round (a / 2)"
    using assms by (intro float_round_lower [OF isFloat_numerals(1)]) simp
  show e2: "float_round (a / 2) \<le> 2"
    using assms by (intro float_round_upper) (simp_all add: isFloat_numerals)
  show "1 / 4 \<le> quadWeight a" unfolding quadWeight_def by (rule exp_weight_pos [OF e0 e2])
  show "quadWeight a \<le> 1" unfolding quadWeight_def by (rule exp_weight(3) [OF e0])
  show "isFloat (quadWeight a)" unfolding quadWeight_def by (rule exp_weight(4) [OF e0])
qed


text \<open>The exponent at a pixel of the image of four pixels, for the weights \<open>(a, 0, a)\<close>.\<close>

lemma quad_exponent:
  assumes "0 \<le> j" "j \<le> 4" "0 \<le> i" "i \<le> 4" "0 \<le> a" "a \<le> 4"
  shows "exponent (1 / 2) (1 / 2) (Fin a) (Fin 0) (Fin a) j i =
           Fin (float_round (((of_int j - 1 / 2) * (of_int j - 1 / 2)
                              + (of_int i - 1 / 2) * (of_int i - 1 / 2)) * a))"
    and "0 \<le> float_round (((of_int j - 1 / 2) * (of_int j - 1 / 2)
                              + (of_int i - 1 / 2) * (of_int i - 1 / 2)) * a)"
    and "float_round (((of_int j - 1 / 2) * (of_int j - 1 / 2)
                              + (of_int i - 1 / 2) * (of_int i - 1 / 2)) * a) \<le> 128"
proof -
  define p :: real where "p = of_int j - 1 / 2"
  define q :: real where "q = of_int i - 1 / 2"
  have pp: "0 \<le> p * p" "p * p \<le> 16" "0 \<le> q * q" "q * q \<le> 16"
    using quad_products(4) [OF assms(1,2) assms(1,2)] quad_products(4) [OF assms(3,4) assms(3,4)]
    by (simp_all add: p_def q_def)
  have r: "0 \<le> (p * p + q * q) * a" using pp assms(5) by simp
  have "(p * p + q * q) * a \<le> 32 * 4"
    using pp assms(5,6) by (intro mult_mono) simp_all
  then have r2: "(p * p + q * q) * a \<le> 128" by simp
  have r3: "\<bar>(p * p + q * q) * a\<bar> \<le> 128" using r r2 by simp
  have "exponent (1 / 2) (1 / 2) (Fin a) (Fin 0) (Fin a) j i = to_float (Fin ((p * p + q * q) * a))"
    unfolding exponent_def offset_half [OF assms(1,2)] offset_half [OF assms(3,4)]
    using quad_products(1,2) [OF assms(1,2) assms(1,2)] quad_products(1,2) [OF assms(3,4) assms(3,4)]
      quad_products(1,2) [OF assms(1,2) assms(3,4)]
    by (simp add: p_def q_def algebra_simps)
  also have "\<dots> = Fin (float_round ((p * p + q * q) * a))"
    by (rule to_float_bounded [OF _ r3]) (simp add: isFloat_numerals)
  finally show "exponent (1 / 2) (1 / 2) (Fin a) (Fin 0) (Fin a) j i =
           Fin (float_round (((of_int j - 1 / 2) * (of_int j - 1 / 2)
                              + (of_int i - 1 / 2) * (of_int i - 1 / 2)) * a))"
    by (simp add: p_def q_def)
  show "0 \<le> float_round (((of_int j - 1 / 2) * (of_int j - 1 / 2)
                              + (of_int i - 1 / 2) * (of_int i - 1 / 2)) * a)"
    using float_round_lower [OF isFloat_numerals(1) r] by (simp add: p_def q_def)
  show "float_round (((of_int j - 1 / 2) * (of_int j - 1 / 2)
                              + (of_int i - 1 / 2) * (of_int i - 1 / 2)) * a) \<le> 128"
    using float_round_upper [OF _ r2, of ] by (simp add: p_def q_def isFloat_numerals)
qed

lemma float_round_nonneg: "0 \<le> r \<Longrightarrow> 0 \<le> float_round r"
  by (rule float_round_lower [OF isFloat_numerals(1)])

text \<open>A pixel at the background level adds nothing.\<close>

lemma blank_pixel:
  assumes e: "exponent cx cy wa wb wc j i = Fin e" "0 \<le> e" "e \<le> 128"
    and t: "pixelMinus (pixelT img) (pixel img j i) (to_float bg) = Fin 0"
    and o: "offset cx j = Fin p" "offset cy i = Fin q" "\<bar>p\<bar> \<le> 4" "\<bar>q\<bar> \<le> 4"
    and k: "\<bar>j\<bar> < 2 ^ 24" "\<bar>i\<bar> < 2 ^ 24"
  shows "contribution img cx cy bg wa wb wc (\<lambda>j i v. v) j i = Fin 0"
    and "contribution img cx cy bg wa wb wc timesColumn j i = Fin 0"
    and "contribution img cx cy bg wa wb wc timesRow j i = Fin 0"
    and "contribution img cx cy bg wa wb wc (timesXX cx cy) j i = Fin 0"
    and "contribution img cx cy bg wa wb wc (timesXY cx cy) j i = Fin 0"
    and "contribution img cx cy bg wa wb wc (timesYY cx cy) j i = Fin 0"
    and "contribution img cx cy bg wa wb wc (timesQQ cx cy wa wb wc) j i = Fin 0"
    and "contribution img cx cy bg wa wb wc (timesX cx) j i = Fin 0"
proof -
  have v: "weightedValue img cx cy bg wa wb wc j i = Fin 0"
    unfolding weightedValue_def e(1) t exp_weight(1) [OF e(2)] by simp
  have m: "\<bar>u\<bar> \<le> 4 \<Longrightarrow> \<bar>v\<bar> \<le> 4 \<Longrightarrow> \<bar>u * v\<bar> \<le> 16" for u v :: real
  proof -
    assume "\<bar>u\<bar> \<le> 4" "\<bar>v\<bar> \<le> 4"
    then have "\<bar>u\<bar> * \<bar>v\<bar> \<le> 4 * 4" by (intro mult_mono) simp_all
    then show ?thesis by (simp add: abs_mult)
  qed
  have b: "\<bar>p * p\<bar> \<le> 16" "\<bar>p * q\<bar> \<le> 16" "\<bar>q * q\<bar> \<le> 16"
    using o(3,4) by (simp_all only: m)
  have f16: "isFloat 16" "isFloat 16384" by (simp_all add: isFloat_numerals)
  have "0 \<le> e * e" using e(2) by simp
  moreover have "e * e \<le> 128 * 128" using e(2,3) by (intro mult_mono) simp_all
  ultimately have "\<bar>e * e\<bar> \<le> 16384" by simp
  note ee = to_float_bounded [OF f16(2) this]
  show "contribution img cx cy bg wa wb wc (\<lambda>j i v. v) j i = Fin 0"
    by (simp add: contribution_def v)
  show "contribution img cx cy bg wa wb wc timesColumn j i = Fin 0"
    by (simp add: contribution_def v timesColumn_def to_float_exact [OF isFloat_int [OF k(1)]])
  show "contribution img cx cy bg wa wb wc timesRow j i = Fin 0"
    by (simp add: contribution_def v timesRow_def to_float_exact [OF isFloat_int [OF k(2)]])
  show "contribution img cx cy bg wa wb wc (timesXX cx cy) j i = Fin 0"
    by (simp add: contribution_def v timesXX_def o to_float_bounded [OF f16(1) b(1)])
  show "contribution img cx cy bg wa wb wc (timesXY cx cy) j i = Fin 0"
    by (simp add: contribution_def v timesXY_def o to_float_bounded [OF f16(1) b(2)])
  show "contribution img cx cy bg wa wb wc (timesYY cx cy) j i = Fin 0"
    by (simp add: contribution_def v timesYY_def o to_float_bounded [OF f16(1) b(3)])
  show "contribution img cx cy bg wa wb wc (timesQQ cx cy wa wb wc) j i = Fin 0"
    by (simp add: contribution_def v timesQQ_def e(1) ee)
  show "contribution img cx cy bg wa wb wc (timesX cx) j i = Fin 0"
    by (simp add: contribution_def v timesX_def o)
qed

lemma blank_near:
  assumes "pixelMinus (pixelT img) (pixel img j i) (to_float (Fin 0)) = Fin 0"
    and "0 \<le> j" "j \<le> 4" "0 \<le> i" "i \<le> 4" "0 \<le> a" "a \<le> 4"
  shows "contribution img (1 / 2) (1 / 2) (Fin 0) (Fin a) (Fin 0) (Fin a) (\<lambda>j i v. v) j i = Fin 0"
    and "contribution img (1 / 2) (1 / 2) (Fin 0) (Fin a) (Fin 0) (Fin a) timesColumn j i = Fin 0"
    and "contribution img (1 / 2) (1 / 2) (Fin 0) (Fin a) (Fin 0) (Fin a) timesRow j i = Fin 0"
    and "contribution img (1 / 2) (1 / 2) (Fin 0) (Fin a) (Fin 0) (Fin a) (timesXX (1 / 2) (1 / 2)) j i = Fin 0"
    and "contribution img (1 / 2) (1 / 2) (Fin 0) (Fin a) (Fin 0) (Fin a) (timesXY (1 / 2) (1 / 2)) j i = Fin 0"
    and "contribution img (1 / 2) (1 / 2) (Fin 0) (Fin a) (Fin 0) (Fin a) (timesYY (1 / 2) (1 / 2)) j i = Fin 0"
    and "contribution img (1 / 2) (1 / 2) (Fin 0) (Fin a) (Fin 0) (Fin a)
           (timesQQ (1 / 2) (1 / 2) (Fin a) (Fin 0) (Fin a)) j i = Fin 0"
    and "contribution img (1 / 2) (1 / 2) (Fin 0) (Fin a) (Fin 0) (Fin a) (timesX (1 / 2)) j i = Fin 0"
proof -
  note e = quad_exponent [OF assms(2-7)]
  have o: "\<bar>of_int j - 1 / 2 :: real\<bar> \<le> 4" "\<bar>of_int i - 1 / 2 :: real\<bar> \<le> 4"
    using assms(2-5) by (simp_all add: abs_le_iff)
  have k: "\<bar>j\<bar> < 2 ^ 24" "\<bar>i\<bar> < 2 ^ 24" using assms(2-5) by simp_all
  note b = blank_pixel [OF e assms(1) offset_half [OF assms(2,3)] offset_half [OF assms(4,5)] o k]
  show "contribution img (1 / 2) (1 / 2) (Fin 0) (Fin a) (Fin 0) (Fin a) (\<lambda>j i v. v) j i = Fin 0"
    and "contribution img (1 / 2) (1 / 2) (Fin 0) (Fin a) (Fin 0) (Fin a) timesColumn j i = Fin 0"
    and "contribution img (1 / 2) (1 / 2) (Fin 0) (Fin a) (Fin 0) (Fin a) timesRow j i = Fin 0"
    and "contribution img (1 / 2) (1 / 2) (Fin 0) (Fin a) (Fin 0) (Fin a) (timesXX (1 / 2) (1 / 2)) j i = Fin 0"
    and "contribution img (1 / 2) (1 / 2) (Fin 0) (Fin a) (Fin 0) (Fin a) (timesXY (1 / 2) (1 / 2)) j i = Fin 0"
    and "contribution img (1 / 2) (1 / 2) (Fin 0) (Fin a) (Fin 0) (Fin a) (timesYY (1 / 2) (1 / 2)) j i = Fin 0"
    and "contribution img (1 / 2) (1 / 2) (Fin 0) (Fin a) (Fin 0) (Fin a)
           (timesQQ (1 / 2) (1 / 2) (Fin a) (Fin 0) (Fin a)) j i = Fin 0"
    and "contribution img (1 / 2) (1 / 2) (Fin 0) (Fin a) (Fin 0) (Fin a) (timesX (1 / 2)) j i = Fin 0"
    by (rule b)+
qed


text \<open>The four pixels of value \<open>1\<close> around the centre.\<close>

lemma lit_near:
  assumes p: "pixelMinus (pixelT img) (pixel img j i) (to_float (Fin 0)) = Fin 1"
    and j: "j = 0 \<or> j = 1" and i: "i = 0 \<or> i = 1" and a: "0 \<le> a" "a \<le> 4"
  shows "contribution img (1 / 2) (1 / 2) (Fin 0) (Fin a) (Fin 0) (Fin a) (\<lambda>j i v. v) j i =
           Fin (quadWeight a)"
    and "contribution img (1 / 2) (1 / 2) (Fin 0) (Fin a) (Fin 0) (Fin a) timesColumn j i =
           Fin (of_int j * quadWeight a)"
    and "contribution img (1 / 2) (1 / 2) (Fin 0) (Fin a) (Fin 0) (Fin a) timesRow j i =
           Fin (of_int i * quadWeight a)"
    and "contribution img (1 / 2) (1 / 2) (Fin 0) (Fin a) (Fin 0) (Fin a) (timesXX (1 / 2) (1 / 2)) j i =
           Fin (quadWeight a / 4)"
    and "contribution img (1 / 2) (1 / 2) (Fin 0) (Fin a) (Fin 0) (Fin a) (timesXY (1 / 2) (1 / 2)) j i =
           Fin ((of_int j - 1 / 2) * (of_int i - 1 / 2) * quadWeight a)"
    and "contribution img (1 / 2) (1 / 2) (Fin 0) (Fin a) (Fin 0) (Fin a) (timesYY (1 / 2) (1 / 2)) j i =
           Fin (quadWeight a / 4)"
    and "contribution img (1 / 2) (1 / 2) (Fin 0) (Fin a) (Fin 0) (Fin a)
           (timesQQ (1 / 2) (1 / 2) (Fin a) (Fin 0) (Fin a)) j i = Fin (quadFourth a)"
    and "contribution img (1 / 2) (1 / 2) (Fin 0) (Fin a) (Fin 0) (Fin a) (timesX (1 / 2)) j i =
           Fin ((of_int j - 1 / 2) * quadWeight a)"
proof -
  define E where "E = float_round (a / 2)"
  define W where "W = quadWeight a"
  note w = quadWeight_bounds [OF a, folded W_def E_def]
  have r: "0 \<le> j" "j \<le> 4" "0 \<le> i" "i \<le> 4" using j i by auto
  have oj: "offset (1 / 2) j = Fin (of_int j - 1 / 2)" by (rule offset_half [OF r(1,2)])
  have oi: "offset (1 / 2) i = Fin (of_int i - 1 / 2)" by (rule offset_half [OF r(3,4)])
  have e: "exponent (1 / 2) (1 / 2) (Fin a) (Fin 0) (Fin a) j i = Fin E"
    unfolding quad_exponent(1) [OF r a] E_def using j i by auto
  have le: "Fin E \<le> Fin 14" using w(5) by simp
  have wt: "to_float (dexp (Fin (- (1 / 2)) * Fin E)) = Fin W"
    using exp_weight(1) [OF w(4)] by (simp only: W_def quadWeight_def E_def)
  have v: "weightedValue img (1 / 2) (1 / 2) (Fin 0) (Fin a) (Fin 0) (Fin a) j i = Fin W"
    unfolding weightedValue_def e p wt by (simp add: to_float_exact [OF w(3)])
  have big: "1 / 2 ^ 100 \<le> \<bar>W\<bar>"
  proof -
    have "(1 / 2 ^ 100 :: real) \<le> 1 / 4" by simp
    with w(1) show ?thesis by linarith
  qed
  have q4: "isFloat (W / 4)" using isFloat_scale [OF w(3) _ big, of 2] by simp
  have q4m: "isFloat (- (W / 4))" using isFloat_minus [OF q4] .
  have x2: "to_float (Fin (W / 4)) = Fin (W / 4)" "to_float (Fin (- (W / 4))) = Fin (- (W / 4))"
    by (rule to_float_exact [OF q4], rule to_float_exact [OF q4m])
  have w0: "to_float (Fin W) = Fin W" by (rule to_float_exact [OF w(3)])
  have q2: "isFloat (W / 2)" using isFloat_scale [OF w(3) _ big, of 1] by simp
  have x1: "to_float (Fin (W / 2)) = Fin (W / 2)" "to_float (Fin (- (W / 2))) = Fin (- (W / 2))"
    by (rule to_float_exact [OF q2], rule to_float_exact [OF isFloat_minus [OF q2]])
  have ee: "to_float (Fin (E * E)) = Fin (float_round (E * E))"
    and ee0: "0 \<le> float_round (E * E)" and ee4: "float_round (E * E) \<le> 4"
  proof -
    have b: "0 \<le> E * E" "E * E \<le> 2 * 2" using w(4,5) by (simp, intro mult_mono, simp_all)
    then have "\<bar>E * E\<bar> \<le> 4" by simp
    then show "to_float (Fin (E * E)) = Fin (float_round (E * E))"
      by (intro to_float_bounded) (simp_all add: isFloat_numerals)
    show "0 \<le> float_round (E * E)" by (rule float_round_nonneg [OF b(1)])
    show "float_round (E * E) \<le> 4"
      using b(2) by (intro float_round_upper) (simp_all add: isFloat_numerals)
  qed
  have s4: "to_float (Fin (float_round (E * E) * W)) = Fin (quadFourth a)"
  proof -
    have "0 \<le> float_round (E * E) * W" using ee0 w(1) by simp
    moreover have "float_round (E * E) * W \<le> 4 * 1" using ee0 ee4 w(1,2) by (intro mult_mono) simp_all
    ultimately have "\<bar>float_round (E * E) * W\<bar> \<le> 4" by simp
    then have "to_float (Fin (float_round (E * E) * W)) = Fin (float_round (float_round (E * E) * W))"
      by (intro to_float_bounded) (simp_all add: isFloat_numerals)
    then show ?thesis by (simp add: quadFourth_def E_def W_def)
  qed
  show "contribution img (1 / 2) (1 / 2) (Fin 0) (Fin a) (Fin 0) (Fin a) (\<lambda>j i v. v) j i =
           Fin (quadWeight a)"
    unfolding contribution_def e v using le by (simp add: W_def)
  show "contribution img (1 / 2) (1 / 2) (Fin 0) (Fin a) (Fin 0) (Fin a) timesColumn j i =
           Fin (of_int j * quadWeight a)"
    unfolding contribution_def e v timesColumn_def using le j w0 by (auto simp: W_def)
  show "contribution img (1 / 2) (1 / 2) (Fin 0) (Fin a) (Fin 0) (Fin a) timesRow j i =
           Fin (of_int i * quadWeight a)"
    unfolding contribution_def e v timesRow_def using le i w0 by (auto simp: W_def)
  show "contribution img (1 / 2) (1 / 2) (Fin 0) (Fin a) (Fin 0) (Fin a) (timesXX (1 / 2) (1 / 2)) j i =
           Fin (quadWeight a / 4)"
    unfolding contribution_def e v timesXX_def oj using le j x2 by (auto simp: W_def)
  show "contribution img (1 / 2) (1 / 2) (Fin 0) (Fin a) (Fin 0) (Fin a) (timesXY (1 / 2) (1 / 2)) j i =
           Fin ((of_int j - 1 / 2) * (of_int i - 1 / 2) * quadWeight a)"
    unfolding contribution_def e v timesXY_def oj oi using le j i x2 by (auto simp: W_def)
  show "contribution img (1 / 2) (1 / 2) (Fin 0) (Fin a) (Fin 0) (Fin a) (timesYY (1 / 2) (1 / 2)) j i =
           Fin (quadWeight a / 4)"
    unfolding contribution_def e v timesYY_def oi using le i x2 by (auto simp: W_def)
  show "contribution img (1 / 2) (1 / 2) (Fin 0) (Fin a) (Fin 0) (Fin a)
           (timesQQ (1 / 2) (1 / 2) (Fin a) (Fin 0) (Fin a)) j i = Fin (quadFourth a)"
    unfolding contribution_def e v timesQQ_def using le by (simp add: ee s4)
  show "contribution img (1 / 2) (1 / 2) (Fin 0) (Fin a) (Fin 0) (Fin a) (timesX (1 / 2)) j i =
           Fin ((of_int j - 1 / 2) * quadWeight a)"
    unfolding contribution_def e v timesX_def oj using le j x1 by (auto simp: W_def)
qed



lemma quadWeight_pos:
  "0 < quadWeight (2 / 3)" "0 < quadWeight (10 / 3)" "quadWeight (2 / 3) \<noteq> 0"
  "quadWeight (10 / 3) \<noteq> 0" "quadWeight (2 / 3) \<le> 1" "quadWeight (10 / 3) \<le> 1"
  using quadWeight_bounds(1,2) [of "2 / 3"] quadWeight_bounds(1,2) [of "10 / 3"] by simp_all

lemma quadWeight_zero: "quadWeight 0 = 1" "quadFourth 0 = 0"
  by (simp_all add: quadWeight_def quadFourth_def float_round_def [of 0]
        float_round_exact [OF isFloat_numerals(2)])


lemma dot_fields:
  "getWidth (dotImage v) = 1" "getHeight (dotImage v) = 1" "getX0 (dotImage v) = 0"
  "getY0 (dotImage v) = 0" "\<not> hasVariance (dotImage v)" "pixel (dotImage v) j i = Fin v"
  "pixelT (dotImage v) = FloatPixel" "getVariance (dotImage v) j i = NaN"
  by (simp_all add: dotImage_def hasVariance_def getVariance_def)

lemma dot_sums:
  assumes "v = 0 \<or> v = 1" "0 \<le> a" "a \<le> 4"
  shows "momLoop (dotImage v) (1 / 2) (1 / 2) dotBox (Fin 0) False (Fin a) (Fin 0) (Fin a) =
     finM (v * quadWeight a) 0 0 (v * quadWeight a / 4) (v * quadWeight a / 4)
        (v * quadWeight a / 4) (v * quadFourth a)"
  unfolding momLoop_plain weightedSum_def dotBox_def
  using assms(1)
  by (auto simp: upto.simps lit_near [OF _ _ _ assms(2,3)] blank_near [OF _ _ _ _ _ assms(2,3)]
        dot_fields pixelMinus_def finM_def moms_def)


lemma clip_boxAround:
  assumes r: "0 < r" and lo: "cx + 1 / 2 < r + 1" "cy + 1 / 2 < r + 1"
    and mx: "of_int mx - 1 < cx + r - 1 / 2" "cx + r - 1 / 2 \<le> of_int mx"
    and my: "of_int my - 1 < cy + r - 1 / 2" "cy + r - 1 / 2 \<le> of_int my"
    and nonneg: "0 \<le> mx" "0 \<le> my" and dims: "0 < W" "0 < H"
  shows "clip (boxAround cx cy (Fin r))
           \<lparr>getMinX = 0, getMinY = 0, getMaxX = W - 1, getMaxY = H - 1\<rparr> =
         \<lparr>getMinX = 0, getMinY = 0, getMaxX = min mx (W - 1), getMaxY = min my (H - 1)\<rparr>"
proof -
  define fx where "fx = \<lfloor>cx - r + 1 / 2\<rfloor>"
  define fy where "fy = \<lfloor>cy - r + 1 / 2\<rfloor>"
  have cx: "\<lceil>cx + r - 1 / 2\<rceil> = mx" using mx by (intro ceiling_unique) auto
  have cy: "\<lceil>cy + r - 1 / 2\<rceil> = my" using my by (intro ceiling_unique) auto
  have fx: "fx \<le> 0" unfolding fx_def using lo(1) by (simp add: floor_le_iff)
  have fy: "fy \<le> 0" unfolding fy_def using lo(2) by (simp add: floor_le_iff)
  have b: "boxAround cx cy (Fin r) = \<lparr>getMinX = fx, getMinY = fy, getMaxX = mx, getMaxY = my\<rparr>"
    using r cx cy by (simp add: boxAround_def fx_def fy_def)
  show ?thesis
    unfolding b using fx fy nonneg dims
    by (simp add: clip_def isEmpty_def Let_def max_def min_def)
qed

lemma sqrt_three_halves: "1 < sqrt (3 / 2)" "sqrt (3 / 2) \<le> 5 / 4"
proof -
  show "1 < sqrt (3 / 2)" by (rule real_less_rsqrt) simp
  show "sqrt (3 / 2) \<le> 5 / 4" by (rule real_le_lsqrt) (simp_all add: power2_eq_square)
qed

























lemma dot_bbox0:
  "computeAdaptiveMomentsBBox (getBBoxLocal (dotImage v)) (1/2) (1/2) (Fin (3/2)) (Fin 0) (Fin (3/2)) = dotBox"
proof -
  have "clip (boxAround (1/2) (1/2) (Fin (4 * sqrt (3 / 2))))
           \<lparr>getMinX = 0, getMinY = 0, getMaxX = 1 - 1, getMaxY = 1 - 1\<rparr> =
         \<lparr>getMinX = 0, getMinY = 0, getMaxX = min 5 (1 - 1), getMaxY = min 5 (1 - 1)\<rparr>"
    using sqrt_three_halves by (intro clip_boxAround) auto
  then show ?thesis
    using sqrt_three_halves
    by (simp add: computeAdaptiveMomentsBBox_def getBBoxLocal_def dotImage_def std_max_def
          std_min_def dotBox_def Let_def)
qed

lemma dot_weights0:
  "amWeights (dotArgs v) (amInit junk newSdssShapeResult) =
     Continue ((amInit junk newSdssShapeResult)
                 \<lparr>bbox := dotBox, w11 := Fin (2 / 3), w12 := Fin 0, w22 := Fin (2 / 3)\<rparr>)"
  by (simp add: amWeights_def dotArgs_def amInit_def dot_bbox0 getWeights_def epsilon_float_def
        shouldInterp_def Let_def)

lemma dot_calcmom_weighted:
  assumes "v = 0 \<or> v = 1"
  shows "calcmom (dotImage v) (1/2) (1/2) dotBox (Fin 0) False (Fin (2/3)) (Fin 0) (Fin (2/3)) False =
     Inr (if 0 < v then 0 else - 1, Fin (v * quadWeight (2 / 3) / (pi * sqrt (9 / 4))),
          finM (v * quadWeight (2 / 3)) 0 0 (v * quadWeight (2 / 3) / 4) (v * quadWeight (2 / 3) / 4)
            (v * quadWeight (2 / 3) / 4) (v * quadFourth (2 / 3)))"
proof -
  have s: "momLoop (dotImage v) (1 / 2) (1 / 2) dotBox (Fin 0) False (Fin (2 / 3)) (Fin 0) (Fin (2 / 3)) =
     finM (v * quadWeight (2 / 3)) 0 0 (v * quadWeight (2 / 3) / 4) (v * quadWeight (2 / 3) / 4)
        (v * quadWeight (2 / 3) / 4) (v * quadFourth (2 / 3))"
    by (rule dot_sums [OF assms]) simp_all
  show ?thesis
    unfolding calcmom_def s
    using quadWeight_pos assms
    by (auto simp: invalidWeights_def outsideImage_def dotBox_def dotImage_def getWeights_def
        epsilon_float_def finM_def Let_def)
qed

lemma dot_calcmom_unweighted:
  assumes "v = 0 \<or> v = 1"
  shows "calcmom (dotImage v) (1/2) (1/2) dotBox (Fin 0) False (Fin 0) (Fin 0) (Fin 0) False =
     Inr (if 0 < v then 0 else - 1, NaN, finM v 0 0 (v / 4) (v / 4) (v / 4) 0)"
proof -
  have s: "momLoop (dotImage v) (1 / 2) (1 / 2) dotBox (Fin 0) False (Fin 0) (Fin 0) (Fin 0) =
     finM v 0 0 (v / 4) (v / 4) (v / 4) 0"
    using dot_sums [OF assms, of 0] by (simp add: quadWeight_zero)
  show ?thesis
    unfolding calcmom_def s
    using assms
    by (auto simp: invalidWeights_def outsideImage_def dotBox_def dotImage_def getWeights_def
        epsilon_float_def finM_def Let_def minus_dbl_def)
qed

lemma dot_body0:
  assumes "v = 0 \<or> v = 1"
  shows "amBody (dotArgs v) (amInit junk newSdssShapeResult) = Break (dotState v)"
  unfolding amBody_def dot_weights0
  using quadWeight_pos assms
  by (auto simp: amMoments_def dotArgs_def amInit_def dot_calcmom_weighted finM_def amNextWeights_def
        getWeights_def epsilon_float_def Let_def dotState_def newSdssShapeResult_def
        flagUnweighted_def setFlag_def fun_eq_iff)

lemma dot_loop:
  assumes "v = 0 \<or> v = 1"
  shows "amLoop (dotArgs v) (amInit junk newSdssShapeResult) = Break (dotState v)"
  by (subst amLoop.simps) (simp add: dot_body0 [OF assms], simp add: amInit_def dotArgs_def)

lemma dot_finish_lit:
  "amFinish (dotArgs 1) (dotState 1) =
     (Inr True, dotResult\<lparr>flags := (\<lambda>f. f = UNWEIGHTED)\<rparr>)"
  using quadWeight_pos
  by (simp add: amFinish_def amIterLimit_def amZeroCheck_def amUnweighted_def amStore_def dotArgs_def
        dotState_def finM_def deq_def setFlag_def flagUnweighted_def dot_calcmom_unweighted
        newSdssShapeResult_def Let_def fun_eq_iff positionToIndex_def dot_fields dotResult_def)


lemma dot_getAdaptiveMoments:
  assumes "v = 0 \<or> v = 1"
  shows "getAdaptiveMoments junk (dotImage v) (Fin 0) (Some (1 / 2)) (Some (1 / 2)) (Fin 2)
     newSdssShapeResult 100 (Fin (1 / 100000)) (Fin (1 / 10000)) False =
   amFinish (dotArgs v) (dotState v)"
  by (simp add: getAdaptiveMoments_def dotArgs_def [symmetric] dot_loop [OF assms])

section \<open>The pixel moment accumulator\<close>









text \<open>
  Claim C6.  \<^verbatim>\<open>calcmom\<close>, in its full and its flux-only form, throws
  \<^verbatim>\<open>InvalidParameterError\<close> when a weight is out of bounds (\<open>w11 < 0\<close>, \<open>w11 > 10\<^sup>6\<close>,
  \<open>|w12| > 10\<^sup>6\<close>, \<open>w22 < 0\<close> or \<open>w22 > 10\<^sup>6\<close>); with the weights within bounds it
  throws \<^verbatim>\<open>LengthError\<close> when the box is not inside the image; in both cases no sums
  are returned.
\<close>

theorem calcmom_validation:
  "((wa < Fin 0 \<or> wa > Fin 1000000 \<or> fabs wb > Fin 1000000 \<or> wc < Fin 0 \<or> wc > Fin 1000000) \<longrightarrow>
      calcmom img cx cy box bg ip wa wb wc neg = Inl InvalidParameterError \<and>
      calcmomFlux img cx cy box bg ip wa wb wc = Inl InvalidParameterError) \<and>
   (\<not> (wa < Fin 0 \<or> wa > Fin 1000000 \<or> fabs wb > Fin 1000000 \<or> wc < Fin 0 \<or> wc > Fin 1000000) \<and>
    (getMinX box < 0 \<or> getMaxX box \<ge> getWidth img \<or> getMinY box < 0 \<or> getMaxY box \<ge> getHeight img) \<longrightarrow>
      calcmom img cx cy box bg ip wa wb wc neg = Inl LengthError \<and>
      calcmomFlux img cx cy box bg ip wa wb wc = Inl LengthError) \<and>
   ((wa < Fin 0 \<or> wa > Fin 1000000 \<or> fabs wb > Fin 1000000 \<or> wc < Fin 0 \<or> wc > Fin 1000000) \<or>
    (getMinX box < 0 \<or> getMaxX box \<ge> getWidth img \<or> getMinY box < 0 \<or> getMaxY box \<ge> getHeight img) \<longrightarrow>
      (\<forall>r. calcmom img cx cy box bg ip wa wb wc neg \<noteq> Inr r) \<and>
      (\<forall>s. calcmomFlux img cx cy box bg ip wa wb wc \<noteq> Inr s))"
  by (simp add: calcmom_def calcmomFlux_def invalidWeights_def outsideImage_def Let_def)

theorem calcmom_validation_witness:
  "calcmom quadImage (1 / 2) (1 / 2) wholeQuad (Fin 0) False (Fin 2000000) (Fin 0) (Fin 1) False =
     Inl InvalidParameterError \<and>
   calcmom quadImage (1 / 2) (1 / 2) \<lparr>getMinX = 0, getMinY = 0, getMaxX = 5, getMaxY = 4\<rparr> (Fin 0) False
       (Fin 1) (Fin 0) (Fin 1) False = Inl LengthError \<and>
   calcmom quadImage (1 / 2) (1 / 2) \<lparr>getMinX = 0, getMinY = 0, getMaxX = 5, getMaxY = 4\<rparr> (Fin 0) False
       (Fin (- 1)) (Fin 0) (Fin 1) False = Inl InvalidParameterError"
  using calcmom_validation [of "Fin 2000000" "Fin 0" "Fin 1" quadImage "1 / 2" "1 / 2" wholeQuad "Fin 0" False False]
    calcmom_validation [of "Fin 1" "Fin 0" "Fin 1" quadImage "1 / 2" "1 / 2"
      "\<lparr>getMinX = 0, getMinY = 0, getMaxX = 5, getMaxY = 4\<rparr>" "Fin 0" False False]
    calcmom_validation [of "Fin (- 1)" "Fin 0" "Fin 1" quadImage "1 / 2" "1 / 2"
      "\<lparr>getMinX = 0, getMinY = 0, getMaxX = 5, getMaxY = 4\<rparr>" "Fin 0" False False]
  by (simp add: quadImage_def)

section \<open>Flags of the workhorse\<close>


















lemma dot_computeAdaptiveMoments:
  "computeAdaptiveMoments zeroMoments (dotImage 1) (Some (1 / 2), Some (1 / 2)) False (stdControl 100) =
     Inr dotResult"
  by (simp add: computeAdaptiveMoments_def stdControl_def dot_getAdaptiveMoments dot_finish_lit
        dot_fields)
     (simp add: setFlag_def dotResult_def newSdssShapeResult_def Let_def fun_eq_iff minus_dbl_def
        dot_fields)








section \<open>Error propagation\<close>




section \<open>The flux at fixed moments\<close>

lemma masked_fields:
  "getWidth maskedDot = 1" "getHeight maskedDot = 1" "getX0 maskedDot = 0" "getY0 maskedDot = 0"
  "hasVariance maskedDot" "pixel maskedDot j i = Fin 1" "getVariance maskedDot j i = Fin 4"
  "getBBoxLocal maskedDot = dotBox" "getBBoxLocal (dotImage v) = dotBox"
  "pixelT maskedDot = FloatPixel"
  by (simp_all add: maskedDot_def dotImage_def hasVariance_def getVariance_def getBBoxLocal_def
        dotBox_def)

lemma unit_bbox:
  "computeAdaptiveMomentsBBox dotBox (- 1) 0 (Fin 1) (Fin 0) (Fin 1) = dotBox"
  "computeAdaptiveMomentsBBox dotBox 0 0 (Fin 1) (Fin 0) (Fin 1) = dotBox"
  by (simp_all add: computeAdaptiveMomentsBBox_def std_max_def std_min_def
        boxAround_def clip_def isEmpty_def dotBox_def Let_def)

lemma unit_weights: "getWeights (Fin 1) (Fin 0) (Fin 1) = ((True, Fin 1), Fin 1, Fin 0, Fin 1)"
  by (simp add: getWeights_def epsilon_float_def Let_def)

lemma cast_minus_one: "static_cast_int (- 1) = - 1"
  using ceiling_of_int [of "- 1", where ?'a = real] by (simp add: static_cast_int_def)

lemma cast_zero: "static_cast_int 0 = 0"
  by (simp add: static_cast_int_def)

lemma dotBox_contains: "contains dotBox ix iy \<longleftrightarrow> ix = 0 \<and> iy = 0"
  by (auto simp: contains_def dotBox_def)

lemma dot_flux_outside:
  "calcmomFlux (dotImage 1) (- 1) 0 dotBox (Fin 0) False (Fin 1) (Fin 0) (Fin 1) = Inr (Fin (float_round (exp (- (1 / 2)))))"
  "calcmomFlux maskedDot (- 1) 0 dotBox (Fin 0) False (Fin 1) (Fin 0) (Fin 1) = Inr (Fin (float_round (exp (- (1 / 2)))))"
  "calcmomFlux maskedDot 0 0 dotBox (Fin 0) False (Fin 1) (Fin 0) (Fin 1) = Inr (Fin 1)"
  using exp_weight(1,4) [of 1]
  by (simp_all add: calcmomFlux_def invalidWeights_def outsideImage_def dot_fields masked_fields
        fluxPixel_def fluxPlain_def offset_def pixelMinus_def upto.simps dotBox_def Let_def
        to_float_exact)


lemma fixed_masked_outside:
  "computeFixedMomentsFlux maskedDot unitShape (- 1, 0) = Inl RuntimeError"
  by (simp add: computeFixedMomentsFlux_def unitShape_def masked_fields unit_bbox unit_weights
        shouldInterp_def dot_flux_outside Let_def cast_minus_one cast_zero dotBox_contains)






section \<open>The umbrella failure flag\<close>

text \<open>
  Claim C10.  In every result that \<^verbatim>\<open>computeAdaptiveMoments\<close> returns, the failure
  flag is set when the unweighted flag or the shift flag is.
\<close>

theorem failure_umbrella:
  assumes "computeAdaptiveMoments junk img center neg control = Inr r"
    and "flags r UNWEIGHTED \<or> flags r SHIFT"
  shows "flags r FAILURE"
  using assms
  by (auto simp: computeAdaptiveMoments_def Let_def setFlag_def hasVariance_def
        split: prod.splits if_splits sum.splits)

theorem failure_umbrella_witness:
  "computeAdaptiveMoments zeroMoments (dotImage 1) (Some (1 / 2), Some (1 / 2)) False (stdControl 100) =
     Inr dotResult \<and> flags dotResult UNWEIGHTED \<and> flags dotResult FAILURE"
proof -
  have u: "flags dotResult UNWEIGHTED" by (simp add: dotResult_def)
  from failure_umbrella [OF dot_computeAdaptiveMoments] u show ?thesis
    using dot_computeAdaptiveMoments by simp
qed

end
